theory Spec2Isabelle
  imports Main
begin

section \<open>JavaScript strings and numbers\<close>

text \<open>
  A JavaScript string is a sequence of UTF-16 code units. The model uses HOL strings, so it
  covers the strings whose code units lie below 256 (ASCII and Latin-1); a HOL character
  stands for the code unit with the same number.

  \<^verbatim>\<open>StrWhiteSpaceChar\<close> of ECMAScript (white space and line terminators) is what
  \<^verbatim>\<open>parseInt\<close> and \<^verbatim>\<open>String.prototype.trim\<close> strip and what \<^verbatim>\<open>\s\<close> matches in a
  regular expression. Below 256 these are TAB, LF, VT, FF, CR, SP and NBSP.
\<close>

definition isStrWhiteSpaceChar :: "char \<Rightarrow> bool" where
  "isStrWhiteSpaceChar c = (of_char c \<in> {9, 10, 11, 12, 13, 32, 160 :: nat})"

definition isDigit :: "char \<Rightarrow> bool" where
  "isDigit c = (48 \<le> (of_char c :: nat) \<and> (of_char c :: nat) \<le> 57)"

definition digitValue :: "char \<Rightarrow> nat" where
  "digitValue c = of_char c - 48"

text \<open>The number a string of decimal digits denotes, read left to right.\<close>

fun decimalValue :: "nat \<Rightarrow> string \<Rightarrow> nat" where
  "decimalValue acc [] = acc"
| "decimalValue acc (c # cs) = decimalValue (10 * acc + digitValue c) cs"

text \<open>
  \<^verbatim>\<open>parseInt(s, 10)\<close>: skip leading white space, read an optional sign, then the longest
  prefix of decimal digits; no digit gives \<^verbatim>\<open>NaN\<close>, modelled as \<open>None\<close>. A JavaScript
  number is a double, so a digit string beyond \<open>2^53\<close> is rounded; rounding is monotone and
  keeps every such value above 65535, so the comparisons made on the result by the command
  line parser agree with the exact integer used here.
\<close>

definition parseInt :: "string \<Rightarrow> int option" where
  "parseInt s =
    (let t = dropWhile isStrWhiteSpaceChar s;
         neg = (case t of [] \<Rightarrow> False | c # _ \<Rightarrow> c = CHR ''-'');
         u = (case t of [] \<Rightarrow> [] | c # r \<Rightarrow> if c = CHR ''-'' \<or> c = CHR ''+'' then r else t);
         z = takeWhile isDigit u
     in if z = [] then None
        else Some (if neg then - int (decimalValue 0 z) else int (decimalValue 0 z)))"

section \<open>The command line entry point\<close>

text \<open>
  \<^verbatim>\<open>main\<close> of the CLI wrapper reads \<^verbatim>\<open>process.argv.slice(2)\<close> into three port
  variables, two environment variables and the error log, then constructs the server. The
  state below holds exactly the variables the loop assigns; \<open>errorLog\<close> collects the
  messages passed to \<^verbatim>\<open>logger.error\<close> in order.
\<close>

record cli_state =
  port :: int
  wsPort :: int
  replPort :: int
  env_LOG_LEVEL :: "string option"
  env_LOG_DIR :: "string option"
  errorLog :: "string list"

definition initialState :: cli_state where
  "initialState =
    \<lparr>port = 4401, wsPort = 4402, replPort = 4403,
     env_LOG_LEVEL = None, env_LOG_DIR = None, errorLog = []\<rparr>"

text \<open>The test \<^verbatim>\<open>!isNaN(portArg) && portArg > 0 && portArg <= 65535\<close>.\<close>

definition validPort :: "int option \<Rightarrow> bool" where
  "validPort portArg = (case portArg of None \<Rightarrow> False | Some n \<Rightarrow> 0 < n \<and> n \<le> 65535)"

text \<open>The number held by a port argument that passed the test (otherwise the given one).\<close>

definition portValue :: "int option \<Rightarrow> int \<Rightarrow> int" where
  "portValue portArg dflt = (case portArg of None \<Rightarrow> dflt | Some n \<Rightarrow> n)"

text \<open>
  One pass through the body of the \<^verbatim>\<open>for\<close> loop at index \<open>i\<close> (with \<open>i < length args\<close>):
  either the process exits (\<^verbatim>\<open>--help\<close>, \<^verbatim>\<open>--version\<close>), or the body finishes with the
  index it leaves in \<open>i\<close> (the loop header then adds one) and the new state.
\<close>

datatype body_result = ProcessExit nat | Continue nat cli_state

definition logError :: "string \<Rightarrow> cli_state \<Rightarrow> cli_state" where
  "logError msg st = st\<lparr>errorLog := errorLog st @ [msg]\<rparr>"

definition loopBody :: "string list \<Rightarrow> nat \<Rightarrow> cli_state \<Rightarrow> body_result" where
  "loopBody args i st =
    (if args ! i = ''--port'' \<or> args ! i = ''-p'' then
       (if i + 1 < length args then
          (let portArg = parseInt (args ! (i + 1)) in
           if validPort portArg
           then Continue (i + 1) (st\<lparr>port := portValue portArg (port st)\<rparr>)
           else Continue i (logError ''Invalid port number. Using default port 4401.'' st))
        else Continue i st)
     else if args ! i = ''--ws-port'' then
       (if i + 1 < length args then
          (let portArg = parseInt (args ! (i + 1)) in
           if validPort portArg
           then Continue (i + 1) (st\<lparr>wsPort := portValue portArg (wsPort st)\<rparr>)
           else Continue i
                  (logError ''Invalid WebSocket port number. Using default port 4402.'' st))
        else Continue i st)
     else if args ! i = ''--repl-port'' then
       (if i + 1 < length args then
          (let portArg = parseInt (args ! (i + 1)) in
           if validPort portArg
           then Continue (i + 1) (st\<lparr>replPort := portValue portArg (replPort st)\<rparr>)
           else Continue i (logError ''Invalid REPL port number. Using default port 4403.'' st))
        else Continue i st)
     else if args ! i = ''--log-level'' \<or> args ! i = ''-l'' then
       (if i + 1 < length args
        then Continue (i + 1) (st\<lparr>env_LOG_LEVEL := Some (args ! (i + 1))\<rparr>)
        else Continue i st)
     else if args ! i = ''--log-dir'' then
       (if i + 1 < length args
        then Continue (i + 1) (st\<lparr>env_LOG_DIR := Some (args ! (i + 1))\<rparr>)
        else Continue i st)
     else if args ! i = ''--help'' \<or> args ! i = ''-h'' then ProcessExit 0
     else if args ! i = ''--version'' \<or> args ! i = ''-v'' then ProcessExit 0
     else Continue i st)"

datatype loop_result = Exited nat cli_state | Parsed cli_state

function parseLoop :: "string list \<Rightarrow> nat \<Rightarrow> cli_state \<Rightarrow> loop_result" where
  "parseLoop args i st =
    (if i < length args then
       (case loopBody args i st of
          ProcessExit code \<Rightarrow> Exited code st
        | Continue j st' \<Rightarrow> parseLoop args (j + 1) st')
     else Parsed st)"
  by pat_completeness auto
termination
proof (relation "measure (\<lambda>(args, i, st). length args - i)")
  show "wf (measure (\<lambda>(args, i, st). length args - i))" by simp
next
  fix args :: "string list" and i :: nat and st :: cli_state and j :: nat and st' :: cli_state
  assume "i < length args" and "loopBody args i st = Continue j st'"
  then have "j = i \<or> (j = i + 1 \<and> i + 1 < length args)"
    by (auto simp: loopBody_def Let_def split: if_splits)
  with \<open>i < length args\<close>
  show "((args, j + 1, st'), (args, i, st)) \<in> measure (\<lambda>(args, i, st). length args - i)"
    by auto
qed

declare parseLoop.simps [simp del]

text \<open>
  What \<^verbatim>\<open>main\<close> does up to the constructor call of line 100: the process has exited, or
  \<^verbatim>\<open>new PenpotMcpServer(port, wsPort, replPort)\<close> is evaluated with the three ports.
\<close>

datatype main_outcome = Exit nat | NewPenpotMcpServer int int int

definition main :: "string list \<Rightarrow> main_outcome" where
  "main args =
    (case parseLoop args 0 initialState of
       Exited code st \<Rightarrow> Exit code
     | Parsed st \<Rightarrow> NewPenpotMcpServer (port st) (wsPort st) (replPort st))"

text \<open>
  The messages \<^verbatim>\<open>logger.error\<close> received up to the constructor call, or up to
  \<^verbatim>\<open>process.exit\<close> when the run ends there.
\<close>

definition mainErrors :: "string list \<Rightarrow> string list" where
  "mainErrors args =
    (case parseLoop args 0 initialState of
       Exited code st \<Rightarrow> errorLog st
     | Parsed st \<Rightarrow> errorLog st)"

section \<open>CreateShapeFromCssTool.parseColor\<close>

text \<open>\<^verbatim>\<open>String.prototype.trim\<close>: white space is removed from both ends.\<close>

definition trim :: "string \<Rightarrow> string" where
  "trim s = rev (dropWhile isStrWhiteSpaceChar (rev (dropWhile isStrWhiteSpaceChar s)))"

text \<open>
  \<^verbatim>\<open>String.prototype.toLowerCase\<close> on code units below 256: the ASCII capitals and the
  Latin-1 capitals (192 to 222 without the multiplication sign 215) move up by 32.
\<close>

definition toLowerChar :: "char \<Rightarrow> char" where
  "toLowerChar c =
    (let n = (of_char c :: nat)
     in if (65 \<le> n \<and> n \<le> 90) \<or> (192 \<le> n \<and> n \<le> 222 \<and> n \<noteq> 215)
        then char_of (n + 32) else c)"

definition toLowerCase :: "string \<Rightarrow> string" where
  "toLowerCase s = map toLowerChar s"

subsection \<open>The regular expression\<close>

text \<open>
  \<^verbatim>\<open>/rgba?\((\d+),\s*(\d+),\s*(\d+)(?:,\s*([\d.]+))?\)/\<close> matched at the start of a
  string. Every quantifier of the pattern is followed by a character its own class
  excludes, so a backtracking matcher succeeds exactly when the greedy reading below
  does: \<^verbatim>\<open>\d+\<close> and \<^verbatim>\<open>\s*\<close> take the longest run, the optional \<^verbatim>\<open>a\<close> is taken when
  present, and the optional alpha group is entered exactly when a comma follows the third
  number. The result holds the three captures that \<^verbatim>\<open>parseColor\<close> reads.
\<close>

fun expect :: "string \<Rightarrow> string \<Rightarrow> string option" where
  "expect [] s = Some s"
| "expect (p # ps) [] = None"
| "expect (p # ps) (c # cs) = (if p = c then expect ps cs else None)"

definition digits :: "string \<Rightarrow> (string \<times> string) option" where
  "digits s =
    (if takeWhile isDigit s = [] then None
     else Some (takeWhile isDigit s, dropWhile isDigit s))"

definition optionalA :: "string \<Rightarrow> string" where
  "optionalA s = (case s of [] \<Rightarrow> [] | c # cs \<Rightarrow> if c = CHR ''a'' then cs else s)"

definition isDigitOrDot :: "char \<Rightarrow> bool" where
  "isDigitOrDot c = (isDigit c \<or> c = CHR ''.'')"

definition alphaGroup :: "string \<Rightarrow> string option" where
  "alphaGroup s =
    (case s of
       [] \<Rightarrow> None
     | c # cs \<Rightarrow>
         if c = CHR '','' then
           (let t = dropWhile isStrWhiteSpaceChar cs
            in if takeWhile isDigitOrDot t = [] then None
               else expect '')'' (dropWhile isDigitOrDot t))
         else expect '')'' s)"

definition matchRgbAt :: "string \<Rightarrow> (string \<times> string \<times> string) option" where
  "matchRgbAt s =
    Option.bind (expect ''rgb'' s) (\<lambda>s1.
    Option.bind (expect ''('' (optionalA s1)) (\<lambda>s2.
    Option.bind (digits s2) (\<lambda>(r, s3).
    Option.bind (expect '','' s3) (\<lambda>s4.
    Option.bind (digits (dropWhile isStrWhiteSpaceChar s4)) (\<lambda>(g, s5).
    Option.bind (expect '','' s5) (\<lambda>s6.
    Option.bind (digits (dropWhile isStrWhiteSpaceChar s6)) (\<lambda>(b, s7).
    Option.bind (alphaGroup s7) (\<lambda>s8. Some (r, g, b)))))))))"

text \<open>\<^verbatim>\<open>color.match(re)\<close> without the global flag: the leftmost position that matches.\<close>

fun rgbMatch :: "string \<Rightarrow> (string \<times> string \<times> string) option" where
  "rgbMatch [] = None"
| "rgbMatch (c # cs) =
    (case matchRgbAt (c # cs) of Some m \<Rightarrow> Some m | None \<Rightarrow> rgbMatch cs)"

subsection \<open>Numbers to hexadecimal\<close>

definition hexDigit :: "nat \<Rightarrow> char" where
  "hexDigit d = (if d < 10 then char_of (48 + d) else char_of (87 + d))"

function hexDigits :: "nat \<Rightarrow> string" where
  "hexDigits n = (if n < 16 then [hexDigit n] else hexDigits (n div 16) @ [hexDigit (n mod 16)])"
  by pat_completeness auto
termination
  by (relation "measure (\<lambda>n. n)") auto

declare hexDigits.simps [simp del]

text \<open>
  \<^verbatim>\<open>x.toString(16)\<close> for the value \<^verbatim>\<open>parseInt\<close> returned. Below \<open>2^53\<close> the double is the
  integer itself and the digits are exact. From \<open>2^53\<close> on the digits are those of the
  rounded double (or \<^verbatim>\<open>Infinity\<close>), which the language leaves to the implementation;
  they are the parameter \<open>inexact\<close>.
\<close>

definition toString16 :: "(nat \<Rightarrow> string) \<Rightarrow> int option \<Rightarrow> string" where
  "toString16 inexact x =
    (case x of
       None \<Rightarrow> ''NaN''
     | Some n \<Rightarrow>
         if n < 0 then CHR ''-'' # hexDigits (nat (- n))
         else if n < 2 ^ 53 then hexDigits (nat n)
         else inexact (nat n))"

text \<open>\<^verbatim>\<open>s.padStart(2, "0")\<close>.\<close>

definition padStart2 :: "string \<Rightarrow> string" where
  "padStart2 s = replicate (2 - length s) (CHR ''0'') @ s"

subsection \<open>The table of named colours\<close>

text \<open>
  \<^verbatim>\<open>namedColors\<close> is an object literal, so \<^verbatim>\<open>namedColors[key]\<close> finds the eleven own
  properties and, for any other key, the members every object inherits from
  \<^verbatim>\<open>Object.prototype\<close>. An inherited member is a function or an object, never a string;
  \<open>JInherited key\<close> stands for it.
\<close>

datatype js_value = JString string | JInherited string

definition namedColors :: "(string \<times> string) list" where
  "namedColors =
    [(''black'', ''#000000''),
     (''white'', ''#ffffff''),
     (''red'', ''#ff0000''),
     (''green'', ''#008000''),
     (''blue'', ''#0000ff''),
     (''yellow'', ''#ffff00''),
     (''cyan'', ''#00ffff''),
     (''magenta'', ''#ff00ff''),
     (''gray'', ''#808080''),
     (''grey'', ''#808080''),
     (''transparent'', ''transparent'')]"

definition objectPrototypeKeys :: "string list" where
  "objectPrototypeKeys =
    [''constructor'', ''__proto__'', ''hasOwnProperty'', ''isPrototypeOf'',
     ''propertyIsEnumerable'', ''toLocaleString'', ''toString'', ''valueOf'',
     ''__defineGetter__'', ''__defineSetter__'', ''__lookupGetter__'', ''__lookupSetter__'']"

text \<open>Property lookup: \<open>None\<close> is \<^verbatim>\<open>undefined\<close>.\<close>

definition namedColorsGet :: "string \<Rightarrow> js_value option" where
  "namedColorsGet key =
    (case map_of namedColors key of
       Some v \<Rightarrow> Some (JString v)
     | None \<Rightarrow> if key \<in> set objectPrototypeKeys then Some (JInherited key) else None)"

text \<open>Truthiness, as \<^verbatim>\<open>||\<close> tests it: the empty string is falsy, an object is truthy.\<close>

definition truthy :: "js_value \<Rightarrow> bool" where
  "truthy v = (case v of JString s \<Rightarrow> s \<noteq> [] | JInherited k \<Rightarrow> True)"

subsection \<open>parseColor\<close>

text \<open>
  The method is only called with a string. \<^verbatim>\<open>parseInt\<close> is called here without a radix, on
  a capture of \<^verbatim>\<open>\d+\<close>: a string of decimal digits has no \<^verbatim>\<open>0x\<close> prefix, so it is read
  in base 10 as by \<open>parseInt\<close> above.
\<close>

definition parseColor :: "(nat \<Rightarrow> string) \<Rightarrow> string \<Rightarrow> js_value" where
  "parseColor inexact color0 =
    (if color0 = [] then JString ''#000000''
     else
       let color = trim color0 in
       if expect ''#'' color \<noteq> None then
         (if length color = 4
          then JString [CHR ''#'', color ! 1, color ! 1, color ! 2, color ! 2, color ! 3, color ! 3]
          else JString color)
       else
         (case rgbMatch color of
            Some (r, g, b) \<Rightarrow>
              JString (CHR ''#'' # padStart2 (toString16 inexact (parseInt r))
                               @ padStart2 (toString16 inexact (parseInt g))
                               @ padStart2 (toString16 inexact (parseInt b)))
          | None \<Rightarrow>
              (case namedColorsGet (toLowerCase color) of
                 None \<Rightarrow> JString ''#000000''
               | Some v \<Rightarrow> if truthy v then v else JString ''#000000'')))"

section \<open>The result a tool receives from the bridge\<close>

text \<open>
  Modelled from the spec: the declaration of the value that
  \<^verbatim>\<open>pluginBridge.executePluginTask\<close> resolves to is not among the sources. Section 3 of
  the specification gives a TaskResult a status, a \<^verbatim>\<open>data\<close> field present only when the
  status is Ok (and then possibly \<^verbatim>\<open>undefined\<close>), and an error message otherwise; section 7
  names the failure statuses. \<open>data = None\<close> is \<^verbatim>\<open>undefined\<close>; \<open>'d\<close> is the type of the
  JSON values a plugin returns.
\<close>

datatype task_status = Ok | RemoteError | Timeout | Disconnected | NotConnected | TransportError

record 'd task_result =
  status :: task_status
  data :: "'d option"
  errorMessage :: "string option"

section \<open>ComponentLibraryManagerTool\<close>

datatype operation =
    Op_create | Op_list | Op_delete | Op_sync | Op_detach | Op_getInstances | Op_getStats
  | Op_update | Op_other string

record component_filter =
  namePattern :: "string option"
  path :: "string option"

record component_updates =
  updates_name :: "string option"

record component_library_manager_args =
  operation :: operation
  shapeIds :: "string list option"
  componentId :: "string option"
  instanceId :: "string option"
  name :: "string option"
  filterArg :: "component_filter option"
  updates :: "component_updates option"

text \<open>
  Truthiness of an optional string, as \<^verbatim>\<open>!x\<close> and \<^verbatim>\<open>x ? a : b\<close> test it: \<^verbatim>\<open>undefined\<close>
  and the empty string are falsy.
\<close>

definition truthyString :: "string option \<Rightarrow> bool" where
  "truthyString x = (case x of None \<Rightarrow> False | Some s \<Rightarrow> s \<noteq> [])"

text \<open>
  The code a method sends to the plugin is a template literal: a fixed text with the
  values of its \<^verbatim>\<open>${...}\<close> holes spliced in. A value of \<open>plugin_code\<close> names the
  template and carries the spliced values; an optional part that the template leaves out
  (a falsy name, pattern or path) is \<open>None\<close>.
\<close>

datatype plugin_code =
    CreateComponentCode "string list" "string option"
  | ListComponentsCode "string option" "string option"
  | DeleteComponentCode string
  | SyncInstancesCode string
  | DetachInstanceCode string
  | GetInstancesCode string
  | GetStatsCode
  | UpdateComponentCode string "string option"

definition whenTruthy :: "string option \<Rightarrow> string option" where
  "whenTruthy x = (if truthyString x then x else None)"

datatype tool_response = TextResponse string

text \<open>
  \<^verbatim>\<open>pluginBridge.executePluginTask\<close> is a parameter: it takes the code of the task and the
  state \<open>'b\<close> of everything behind the bridge (the registry, the socket, the remote plugin)
  and gives back the new state with either the error of a rejected promise (\<open>Inl\<close>) or the
  result the promise resolves to (\<open>Inr\<close>). \<open>stringify d\<close> is
  \<^verbatim>\<open>JSON.stringify(d, null, 2)\<close>. A tool method returns its response, or passes on the
  rejection that \<^verbatim>\<open>await\<close> rethrows, and the state.
\<close>

type_synonym ('d, 'b) bridge = "plugin_code \<Rightarrow> 'b \<Rightarrow> (string + 'd task_result) \<times> 'b"

definition executePluginCode ::
  "('d, 'b) bridge \<Rightarrow> ('d \<Rightarrow> string) \<Rightarrow> plugin_code \<Rightarrow> 'b \<Rightarrow> (string + tool_response) \<times> 'b" where
  "executePluginCode executePluginTask stringify code s =
    (case executePluginTask code s of
       (Inl err, s') \<Rightarrow> (Inl err, s')
     | (Inr result, s') \<Rightarrow>
         (case data result of
            Some d \<Rightarrow> (Inr (TextResponse (stringify d)), s')
          | None \<Rightarrow>
              (Inr (TextResponse ''Operation completed successfully with no return value.''),
               s')))"

definition createComponent ::
  "('d, 'b) bridge \<Rightarrow> ('d \<Rightarrow> string) \<Rightarrow> component_library_manager_args \<Rightarrow> 'b
   \<Rightarrow> (string + tool_response) \<times> 'b" where
  "createComponent executePluginTask stringify args s =
    (case shapeIds args of
       None \<Rightarrow> (Inr (TextResponse ''Error: 'shapeIds' is required for 'create' operation''), s)
     | Some ids \<Rightarrow>
         if length ids = 0
         then (Inr (TextResponse ''Error: 'shapeIds' is required for 'create' operation''), s)
         else executePluginCode executePluginTask stringify
                (CreateComponentCode ids (whenTruthy (name args))) s)"

definition listComponents ::
  "('d, 'b) bridge \<Rightarrow> ('d \<Rightarrow> string) \<Rightarrow> component_library_manager_args \<Rightarrow> 'b
   \<Rightarrow> (string + tool_response) \<times> 'b" where
  "listComponents executePluginTask stringify args s =
    (let namePattern = (case filterArg args of None \<Rightarrow> None | Some f \<Rightarrow> namePattern f);
         pathFilter = (case filterArg args of None \<Rightarrow> None | Some f \<Rightarrow> path f)
     in executePluginCode executePluginTask stringify
          (ListComponentsCode (whenTruthy namePattern) (whenTruthy pathFilter)) s)"

definition deleteComponent ::
  "('d, 'b) bridge \<Rightarrow> ('d \<Rightarrow> string) \<Rightarrow> component_library_manager_args \<Rightarrow> 'b
   \<Rightarrow> (string + tool_response) \<times> 'b" where
  "deleteComponent executePluginTask stringify args s =
    (case whenTruthy (componentId args) of
       None \<Rightarrow>
         (Inr (TextResponse ''Error: 'componentId' is required for 'delete' operation''), s)
     | Some cid \<Rightarrow> executePluginCode executePluginTask stringify (DeleteComponentCode cid) s)"

definition syncInstances ::
  "('d, 'b) bridge \<Rightarrow> ('d \<Rightarrow> string) \<Rightarrow> component_library_manager_args \<Rightarrow> 'b
   \<Rightarrow> (string + tool_response) \<times> 'b" where
  "syncInstances executePluginTask stringify args s =
    (case whenTruthy (componentId args) of
       None \<Rightarrow> (Inr (TextResponse ''Error: 'componentId' is required for 'sync' operation''), s)
     | Some cid \<Rightarrow> executePluginCode executePluginTask stringify (SyncInstancesCode cid) s)"

definition detachInstance ::
  "('d, 'b) bridge \<Rightarrow> ('d \<Rightarrow> string) \<Rightarrow> component_library_manager_args \<Rightarrow> 'b
   \<Rightarrow> (string + tool_response) \<times> 'b" where
  "detachInstance executePluginTask stringify args s =
    (case whenTruthy (instanceId args) of
       None \<Rightarrow> (Inr (TextResponse ''Error: 'instanceId' is required for 'detach' operation''), s)
     | Some iid \<Rightarrow> executePluginCode executePluginTask stringify (DetachInstanceCode iid) s)"

definition getInstances ::
  "('d, 'b) bridge \<Rightarrow> ('d \<Rightarrow> string) \<Rightarrow> component_library_manager_args \<Rightarrow> 'b
   \<Rightarrow> (string + tool_response) \<times> 'b" where
  "getInstances executePluginTask stringify args s =
    (case whenTruthy (componentId args) of
       None \<Rightarrow>
         (Inr (TextResponse ''Error: 'componentId' is required for 'getInstances' operation''),
          s)
     | Some cid \<Rightarrow> executePluginCode executePluginTask stringify (GetInstancesCode cid) s)"

definition getStats ::
  "('d, 'b) bridge \<Rightarrow> ('d \<Rightarrow> string) \<Rightarrow> 'b \<Rightarrow> (string + tool_response) \<times> 'b" where
  "getStats executePluginTask stringify s =
    executePluginCode executePluginTask stringify GetStatsCode s"

definition updateComponent ::
  "('d, 'b) bridge \<Rightarrow> ('d \<Rightarrow> string) \<Rightarrow> component_library_manager_args \<Rightarrow> 'b
   \<Rightarrow> (string + tool_response) \<times> 'b" where
  "updateComponent executePluginTask stringify args s =
    (case whenTruthy (componentId args) of
       None \<Rightarrow>
         (Inr (TextResponse ''Error: 'componentId' is required for 'update' operation''), s)
     | Some cid \<Rightarrow>
         if updates args = None \<and> \<not> truthyString (name args)
         then (Inr (TextResponse
                      ''Error: 'updates' or 'name' is required for 'update' operation''), s)
         else
           (let updatesName = (case updates args of None \<Rightarrow> None | Some u \<Rightarrow> updates_name u);
                newName = (if truthyString updatesName then updatesName else name args)
            in executePluginCode executePluginTask stringify
                 (UpdateComponentCode cid (whenTruthy newName)) s))"

definition executeCore ::
  "('d, 'b) bridge \<Rightarrow> ('d \<Rightarrow> string) \<Rightarrow> component_library_manager_args \<Rightarrow> 'b
   \<Rightarrow> (string + tool_response) \<times> 'b" where
  "executeCore executePluginTask stringify args s =
    (case operation args of
       Op_create \<Rightarrow> createComponent executePluginTask stringify args s
     | Op_list \<Rightarrow> listComponents executePluginTask stringify args s
     | Op_delete \<Rightarrow> deleteComponent executePluginTask stringify args s
     | Op_sync \<Rightarrow> syncInstances executePluginTask stringify args s
     | Op_detach \<Rightarrow> detachInstance executePluginTask stringify args s
     | Op_getInstances \<Rightarrow> getInstances executePluginTask stringify args s
     | Op_getStats \<Rightarrow> getStats executePluginTask stringify s
     | Op_update \<Rightarrow> updateComponent executePluginTask stringify args s
     | Op_other opName \<Rightarrow> (Inr (TextResponse (''Unknown operation: '' @ opName)), s))"

text \<open>
  A bridge to run the tool against: it records every task it is given and resolves to a
  fixed result.
\<close>

definition recordingBridge :: "'d task_result \<Rightarrow> ('d, plugin_code list) bridge" where
  "recordingBridge result code submitted = (Inr result, submitted @ [code])"

section \<open>The Task Registry\<close>

text \<open>
  Modelled from the spec: the Plugin Task Bridge and its Task Registry are not among the
  sources (only the tools that call \<^verbatim>\<open>executePluginTask\<close> are). A PendingEntry has the
  fields of section 3 of the specification; its resolver, the single-shot callback that
  hands the result to the waiting caller, is modelled by the registry's record of the
  results handed over.
\<close>

record pending_entry =
  taskId :: string
  connectionId :: string
  deadline :: nat

text \<open>
  Modelled from the spec: the registry is the in-memory map of section 2, kept as the list
  of pending entries in registration order; \<open>delivered\<close> lists every invocation of a
  resolver, oldest first, as the task id and the result handed to its caller.
\<close>

record 'd registry =
  pending :: "pending_entry list"
  delivered :: "(string \<times> 'd task_result) list"

text \<open>Modelled from the spec: the registry before any task is dispatched.\<close>

definition emptyRegistry :: "'d registry" where
  "emptyRegistry = \<lparr>pending = [], delivered = []\<rparr>"

text \<open>
  Modelled from the spec: \<^verbatim>\<open>register(taskId, connectionId, deadline)\<close> of section 4.2 fails
  if the task id is already registered.
\<close>

datatype registry_error = AlreadyRegistered

definition register ::
  "string \<Rightarrow> string \<Rightarrow> nat \<Rightarrow> 'd registry \<Rightarrow> registry_error + 'd registry" where
  "register tid cid dl reg =
    (if tid \<in> taskId ` set (pending reg) then Inl AlreadyRegistered
     else Inr (reg\<lparr>pending := pending reg @
                 [\<lparr>taskId = tid, connectionId = cid, deadline = dl\<rparr>]\<rparr>))"

text \<open>
  Modelled from the spec: \<^verbatim>\<open>resolve(taskId, result)\<close> of section 4.2 is true if this call
  completed the entry (the entry is removed and its resolver invoked) and false, with
  nothing changed, if the entry is not pending any more.
\<close>

definition resolve :: "string \<Rightarrow> 'd task_result \<Rightarrow> 'd registry \<Rightarrow> bool \<times> 'd registry" where
  "resolve tid result reg =
    (if tid \<in> taskId ` set (pending reg)
     then (True, reg\<lparr>pending := filter (\<lambda>e. taskId e \<noteq> tid) (pending reg),
                     delivered := delivered reg @ [(tid, result)]\<rparr>)
     else (False, reg))"

text \<open>
  Modelled from the spec: the results of the two forced failures. Section 3 gives them a
  status and an error message and no data; the text of the timeout message is not
  specified, the words of section 7 stand for it.
\<close>

definition disconnectedResult :: "string \<Rightarrow> 'd task_result" where
  "disconnectedResult reason = \<lparr>status = Disconnected, data = None, errorMessage = Some reason\<rparr>"

definition timeoutResult :: "'d task_result" where
  "timeoutResult =
    \<lparr>status = Timeout, data = None, errorMessage = Some ''deadline elapsed with no reply''\<rparr>"

text \<open>
  Modelled from the spec: \<^verbatim>\<open>failAllForConnection(connectionId, reason)\<close> of section 4.2
  resolves every pending entry bound to the connection with status Disconnected. It walks
  the entries pending at the call and resolves each one bound to the connection.
\<close>

definition failAllForConnection :: "string \<Rightarrow> string \<Rightarrow> 'd registry \<Rightarrow> 'd registry" where
  "failAllForConnection cid reason reg =
    fold (\<lambda>e r. if connectionId e = cid
                then snd (resolve (taskId e) (disconnectedResult reason) r) else r)
      (pending reg) reg"

text \<open>
  Modelled from the spec: \<^verbatim>\<open>sweepExpired(now)\<close> of section 4.2 resolves every entry whose
  deadline has passed with status Timeout.
\<close>

definition sweepExpired :: "nat \<Rightarrow> 'd registry \<Rightarrow> 'd registry" where
  "sweepExpired now reg =
    fold (\<lambda>e r. if deadline e < now then snd (resolve (taskId e) timeoutResult r) else r)
      (pending reg) reg"

text \<open>
  Modelled from the spec: the registry's operations are mutually exclusive (section 5), so
  a run of the system is a sequence of them: a registration by a dispatch, a reply that
  the message-receive path resolves, a firing of the timeout sweep, and the loss of a
  connection.
\<close>

datatype 'd registry_event =
    TaskRegistered string string nat
  | ReplyArrives string "'d task_result"
  | SweepFires nat
  | ConnectionCloses string string

fun applyEvent :: "'d registry_event \<Rightarrow> 'd registry \<Rightarrow> 'd registry" where
  "applyEvent (TaskRegistered tid cid dl) reg =
    (case register tid cid dl reg of Inl err \<Rightarrow> reg | Inr reg' \<Rightarrow> reg')"
| "applyEvent (ReplyArrives tid result) reg = snd (resolve tid result reg)"
| "applyEvent (SweepFires now) reg = sweepExpired now reg"
| "applyEvent (ConnectionCloses cid reason) reg = failAllForConnection cid reason reg"

text \<open>Modelled from the spec: the registry after a sequence of events, first event first.\<close>

definition run :: "'d registry_event list \<Rightarrow> 'd registry \<Rightarrow> 'd registry" where
  "run es reg = fold applyEvent es reg"

text \<open>
  Modelled from the spec: the three paths of step 5 of the dispatch algorithm (section 4.3).
  \<open>ends ev e\<close> is the result an event gives the entry \<open>e\<close> if it is one of these paths for
  \<open>e\<close>: a reply carrying its task id, a sweep after its deadline, the loss of its connection.
\<close>

fun ends :: "'d registry_event \<Rightarrow> pending_entry \<Rightarrow> 'd task_result option" where
  "ends (TaskRegistered tid cid dl) e = None"
| "ends (ReplyArrives tid result) e = (if tid = taskId e then Some result else None)"
| "ends (SweepFires now) e = (if deadline e < now then Some timeoutResult else None)"
| "ends (ConnectionCloses cid reason) e =
    (if cid = connectionId e then Some (disconnectedResult reason) else None)"

text \<open>
  Modelled from the spec: "whichever occurs first wins" (section 3): the result of the
  first event of the sequence that ends the entry, if there is one.
\<close>

fun firstOutcome :: "'d registry_event list \<Rightarrow> pending_entry \<Rightarrow> 'd task_result option" where
  "firstOutcome [] e = None"
| "firstOutcome (ev # es) e =
    (case ends ev e of Some result \<Rightarrow> Some result | None \<Rightarrow> firstOutcome es e)"

text \<open>
  Modelled from the spec: whether an event registers the given task id. A correlation id
  is generated fresh for each dispatch (section 4.3, step 2), so the events that follow a
  dispatch do not register its id again.
\<close>

fun registers :: "'d registry_event \<Rightarrow> string \<Rightarrow> bool" where
  "registers (TaskRegistered tid cid dl) t = (tid = t)"
| "registers (ReplyArrives tid result) t = False"
| "registers (SweepFires now) t = False"
| "registers (ConnectionCloses cid reason) t = False"

text \<open>Modelled from the spec: the results handed to the caller of one task, oldest first.\<close>

definition deliveredFor :: "string \<Rightarrow> 'd registry \<Rightarrow> 'd task_result list" where
  "deliveredFor tid reg = map snd (filter (\<lambda>p. fst p = tid) (delivered reg))"

section \<open>The colour notations of the specification\<close>

text \<open>
  The forms of input that the description of \<^verbatim>\<open>parseColor\<close> speaks of, written out
  independently of the regular expression: a number is a non-empty string of decimal
  digits, the separators after the commas are runs of white space, an alpha value is a
  non-empty string of digits and dots, and a channel is shown as two hexadecimal digits.
\<close>

definition digitString :: "string \<Rightarrow> bool" where
  "digitString r = (r \<noteq> [] \<and> list_all isDigit r)"

definition whiteSpaceString :: "string \<Rightarrow> bool" where
  "whiteSpaceString w = list_all isStrWhiteSpaceChar w"

definition alphaString :: "string \<Rightarrow> bool" where
  "alphaString a = (a \<noteq> [] \<and> list_all isDigitOrDot a)"

definition rgbText :: "string \<Rightarrow> string \<Rightarrow> string \<Rightarrow> string \<Rightarrow> string \<Rightarrow> string" where
  "rgbText r w1 g w2 b = ''rgb('' @ r @ '','' @ w1 @ g @ '','' @ w2 @ b @ '')''"

definition rgbaText ::
  "string \<Rightarrow> string \<Rightarrow> string \<Rightarrow> string \<Rightarrow> string \<Rightarrow> string \<Rightarrow> string \<Rightarrow> string" where
  "rgbaText r w1 g w2 b w3 a =
    ''rgba('' @ r @ '','' @ w1 @ g @ '','' @ w2 @ b @ '','' @ w3 @ a @ '')''"

definition hex2 :: "nat \<Rightarrow> string" where
  "hex2 n = [hexDigit (n div 16), hexDigit (n mod 16)]"

section \<open>Properties of the command line entry point\<close>

lemma loopBody_index:
  "loopBody args i st = Continue j st' \<Longrightarrow> j = i \<or> (j = i + 1 \<and> i + 1 < length args)"
  by (auto simp: loopBody_def Let_def split: if_splits)

lemma parseLoop_invariant:
  assumes step:
    "\<And>i st j st'. i < length args \<Longrightarrow> loopBody args i st = Continue j st' \<Longrightarrow> P st \<Longrightarrow> P st'"
  shows "parseLoop args i st = Parsed st' \<Longrightarrow> P st \<Longrightarrow> P st'"
proof (induction "length args - i" arbitrary: i st rule: less_induct)
  case less
  show ?case
  proof (cases "i < length args")
    case False
    with less.prems show ?thesis by (simp add: parseLoop.simps)
  next
    case True
    show ?thesis
    proof (cases "loopBody args i st")
      case (ProcessExit code)
      with True less.prems show ?thesis by (simp add: parseLoop.simps)
    next
      case (Continue j st1)
      with True less.prems have run: "parseLoop args (j + 1) st1 = Parsed st'"
        by (simp add: parseLoop.simps)
      have "P st1" using step [OF True Continue] less.prems by simp
      moreover have "length args - (j + 1) < length args - i"
        using loopBody_index [OF Continue] True by auto
      ultimately show ?thesis using less.hyps run by blast
    qed
  qed
qed

lemma loopBody_port:
  "loopBody args i st = Continue j st' \<Longrightarrow>
   \<forall>k. k + 1 < length args \<and> (args ! k = ''--port'' \<or> args ! k = ''-p'')
         \<longrightarrow> \<not> validPort (parseInt (args ! (k + 1))) \<Longrightarrow>
   port st' = port st"
  by (auto simp: loopBody_def Let_def logError_def split: if_splits)

lemma loopBody_wsPort:
  "loopBody args i st = Continue j st' \<Longrightarrow>
   \<forall>k. k + 1 < length args \<and> args ! k = ''--ws-port''
         \<longrightarrow> \<not> validPort (parseInt (args ! (k + 1))) \<Longrightarrow>
   wsPort st' = wsPort st"
  by (auto simp: loopBody_def Let_def logError_def split: if_splits)

lemma loopBody_replPort:
  "loopBody args i st = Continue j st' \<Longrightarrow>
   \<forall>k. k + 1 < length args \<and> args ! k = ''--repl-port''
         \<longrightarrow> \<not> validPort (parseInt (args ! (k + 1))) \<Longrightarrow>
   replPort st' = replPort st"
  by (auto simp: loopBody_def Let_def logError_def split: if_splits)

text \<open>
  Claim C9, as amended. Whenever \<^verbatim>\<open>main\<close> reaches the constructor call: if no \<^verbatim>\<open>--port\<close> or
  \<^verbatim>\<open>-p\<close> in the argument list is followed by a value that parses to an integer greater than
  0 and at most 65535, the HTTP/SSE port passed to \<^verbatim>\<open>PenpotMcpServer\<close> is the default 4401;
  likewise the WebSocket port is 4402 when no \<^verbatim>\<open>--ws-port\<close> has a valid value, and the REPL
  port is 4403 when no \<^verbatim>\<open>--repl-port\<close> has one.
\<close>

theorem main_default_ports:
  assumes "main args = NewPenpotMcpServer p w r"
  shows
   "((\<forall>k. k + 1 < length args \<and> (args ! k = ''--port'' \<or> args ! k = ''-p'')
          \<longrightarrow> \<not> validPort (parseInt (args ! (k + 1)))) \<longrightarrow> p = 4401) \<and>
    ((\<forall>k. k + 1 < length args \<and> args ! k = ''--ws-port''
          \<longrightarrow> \<not> validPort (parseInt (args ! (k + 1)))) \<longrightarrow> w = 4402) \<and>
    ((\<forall>k. k + 1 < length args \<and> args ! k = ''--repl-port''
          \<longrightarrow> \<not> validPort (parseInt (args ! (k + 1)))) \<longrightarrow> r = 4403)"
proof -
  from assms obtain st where run: "parseLoop args 0 initialState = Parsed st"
    and p: "p = port st" and w: "w = wsPort st" and r: "r = replPort st"
    by (auto simp: main_def split: loop_result.splits)
  have "port st = 4401"
    if "\<forall>k. k + 1 < length args \<and> (args ! k = ''--port'' \<or> args ! k = ''-p'')
          \<longrightarrow> \<not> validPort (parseInt (args ! (k + 1)))"
    using parseLoop_invariant [where P = "\<lambda>s. port s = 4401", OF _ run] loopBody_port that
    by (simp add: initialState_def)
  moreover have "wsPort st = 4402"
    if "\<forall>k. k + 1 < length args \<and> args ! k = ''--ws-port''
          \<longrightarrow> \<not> validPort (parseInt (args ! (k + 1)))"
    using parseLoop_invariant [where P = "\<lambda>s. wsPort s = 4402", OF _ run] loopBody_wsPort that
    by (simp add: initialState_def)
  moreover have "replPort st = 4403"
    if "\<forall>k. k + 1 < length args \<and> args ! k = ''--repl-port''
          \<longrightarrow> \<not> validPort (parseInt (args ! (k + 1)))"
    using parseLoop_invariant [where P = "\<lambda>s. replPort s = 4403", OF _ run] loopBody_replPort that
    by (simp add: initialState_def)
  ultimately show ?thesis using p w r by blast
qed

theorem main_default_ports_witness:
  "\<not> validPort (parseInt ''abc'') \<and> \<not> validPort (parseInt ''0'') \<and>
   \<not> validPort (parseInt ''70000'') \<and>
   main [''--port'', ''abc'', ''--ws-port'', ''0'', ''-p'', ''0'', ''--repl-port'', ''70000'']
     = NewPenpotMcpServer 4401 4402 4403"
proof -
  let ?args = "[''--port'', ''abc'', ''--ws-port'', ''0'', ''-p'', ''0'', ''--repl-port'', ''70000'']"
  have inv: "\<not> validPort (parseInt ''abc'')" "\<not> validPort (parseInt ''0'')"
    "\<not> validPort (parseInt ''70000'')"
    by (simp_all add: validPort_def parseInt_def isStrWhiteSpaceChar_def isDigit_def
        digitValue_def)
  obtain p w r where m: "main ?args = NewPenpotMcpServer p w r"
    by (simp add: main_def parseLoop.simps loopBody_def initialState_def logError_def inv)
  have h1: "\<forall>k. k + 1 < length ?args \<and> (?args ! k = ''--port'' \<or> ?args ! k = ''-p'')
          \<longrightarrow> \<not> validPort (parseInt (?args ! (k + 1)))"
    using inv by (auto simp: nth_Cons' less_Suc_eq numeral_eq_Suc)
  have h2: "\<forall>k. k + 1 < length ?args \<and> ?args ! k = ''--ws-port''
          \<longrightarrow> \<not> validPort (parseInt (?args ! (k + 1)))"
    using inv by (auto simp: nth_Cons' less_Suc_eq numeral_eq_Suc)
  have h3: "\<forall>k. k + 1 < length ?args \<and> ?args ! k = ''--repl-port''
          \<longrightarrow> \<not> validPort (parseInt (?args ! (k + 1)))"
    using inv by (auto simp: nth_Cons' less_Suc_eq numeral_eq_Suc)
  from main_default_ports [OF m] h1 h2 h3 have "p = 4401 \<and> w = 4402 \<and> r = 4403" by blast
  with m inv show ?thesis by simp
qed

text \<open>
  The claim as first stated asks for the default whenever one \<^verbatim>\<open>--port\<close> is followed by an
  invalid value. The loop does not consume an invalid value and carries on, so a later
  \<^verbatim>\<open>--port\<close> with a valid value still sets the port.
\<close>

theorem main_invalid_value_counterexample:
  "\<not> validPort (parseInt ''abc'') \<and>
   main [''--port'', ''abc'', ''--port'', ''5000''] = NewPenpotMcpServer 5000 4402 4403"
  by (simp add: main_def parseLoop.simps loopBody_def initialState_def logError_def
      validPort_def portValue_def parseInt_def isStrWhiteSpaceChar_def isDigit_def digitValue_def)

text \<open>
  An invalid value never resets a port that an earlier option has set: the error message
  is logged and the variable keeps the earlier value.
\<close>

lemma main_valid_then_invalid:
  "main [''--port'', ''8080'', ''--port'', ''abc''] = NewPenpotMcpServer 8080 4402 4403 \<and>
   mainErrors [''--port'', ''8080'', ''--port'', ''abc'']
     = [''Invalid port number. Using default port 4401.'']"
  by (simp add: main_def mainErrors_def parseLoop.simps loopBody_def initialState_def
      logError_def validPort_def portValue_def parseInt_def isStrWhiteSpaceChar_def isDigit_def
      digitValue_def)

text \<open>An error logged before \<^verbatim>\<open>--help\<close> ends the run has been logged all the same.\<close>

lemma main_errors_before_exit:
  "main [''--port'', ''--help''] = Exit 0 \<and>
   mainErrors [''--port'', ''--help''] = [''Invalid port number. Using default port 4401.'']"
  by (simp add: main_def mainErrors_def parseLoop.simps loopBody_def initialState_def
      logError_def validPort_def portValue_def parseInt_def isStrWhiteSpaceChar_def isDigit_def
      digitValue_def)

section \<open>Properties of parseColor\<close>

lemma digit_not_space: "isDigit c \<Longrightarrow> \<not> isStrWhiteSpaceChar c"
  by (auto simp: isDigit_def isStrWhiteSpaceChar_def)

lemma digit_chars:
  "\<not> isDigit (CHR '','')" "\<not> isDigit (CHR '')'')" "\<not> isDigitOrDot (CHR '')'')"
  "\<not> isStrWhiteSpaceChar (CHR '','')" "\<not> isDigit (CHR ''-'')" "\<not> isDigit (CHR ''+'')"
  by (simp_all add: isDigit_def isDigitOrDot_def isStrWhiteSpaceChar_def)

lemma digits_then:
  assumes "digitString r" and "\<not> isDigit x"
  shows "digits (r @ x # rest) = Some (r, x # rest)"
proof -
  from assms have all: "\<forall>c \<in> set r. isDigit c" and ne: "r \<noteq> []"
    by (simp_all add: digitString_def list_all_iff)
  from all assms(2) have "takeWhile isDigit (r @ x # rest) = r"
    by (simp add: takeWhile_tail)
  moreover from all assms(2) have "dropWhile isDigit (r @ x # rest) = x # rest"
    by (simp add: dropWhile_append3)
  ultimately show ?thesis using ne by (simp add: digits_def)
qed

lemma skip_space:
  assumes "whiteSpaceString w" and "digitString r"
  shows "dropWhile isStrWhiteSpaceChar (w @ r @ rest) = r @ rest"
proof -
  from assms(2) obtain d ds where r: "r = d # ds" and d: "isDigit d"
    by (cases r) (auto simp: digitString_def)
  from assms(1) have "\<forall>c \<in> set w. isStrWhiteSpaceChar c"
    by (simp add: whiteSpaceString_def list_all_iff)
  with d show ?thesis unfolding r
    by (simp add: dropWhile_append3 digit_not_space)
qed

lemma matchRgbAt_rgb:
  assumes "digitString r" "digitString g" "digitString b" "whiteSpaceString w1" "whiteSpaceString w2"
  shows "matchRgbAt (rgbText r w1 g w2 b @ rest) = Some (r, g, b)"
proof -
  have 1: "digits (r @ CHR '','' # w1 @ g @ CHR '','' # w2 @ b @ CHR '')'' # rest)
      = Some (r, CHR '','' # w1 @ g @ CHR '','' # w2 @ b @ CHR '')'' # rest)"
    by (rule digits_then [OF assms(1)]) (simp add: digit_chars)
  have 2: "dropWhile isStrWhiteSpaceChar (w1 @ g @ CHR '','' # w2 @ b @ CHR '')'' # rest)
      = g @ CHR '','' # w2 @ b @ CHR '')'' # rest"
    by (rule skip_space [OF assms(4) assms(2)])
  have 3: "digits (g @ CHR '','' # w2 @ b @ CHR '')'' # rest)
      = Some (g, CHR '','' # w2 @ b @ CHR '')'' # rest)"
    by (rule digits_then [OF assms(2)]) (simp add: digit_chars)
  have 4: "dropWhile isStrWhiteSpaceChar (w2 @ b @ CHR '')'' # rest) = b @ CHR '')'' # rest"
    by (rule skip_space [OF assms(5) assms(3)])
  have 5: "digits (b @ CHR '')'' # rest) = Some (b, CHR '')'' # rest)"
    by (rule digits_then [OF assms(3)]) (simp add: digit_chars)
  show ?thesis
    by (simp add: matchRgbAt_def rgbText_def optionalA_def 1 2 3 4 5 alphaGroup_def)
qed

lemma alphaGroup_alpha:
  assumes "whiteSpaceString w3" "alphaString a"
  shows "alphaGroup (CHR '','' # w3 @ a @ CHR '')'' # rest) = Some rest"
proof -
  from assms(2) obtain d ds where a: "a = d # ds" and d: "isDigitOrDot d"
    and all: "\<forall>c \<in> set a. isDigitOrDot c"
    by (cases a) (auto simp: alphaString_def list_all_iff)
  from d have nsp: "\<not> isStrWhiteSpaceChar d"
    by (auto simp: isDigitOrDot_def isDigit_def isStrWhiteSpaceChar_def)
  from assms(1) have "\<forall>c \<in> set w3. isStrWhiteSpaceChar c"
    by (simp add: whiteSpaceString_def list_all_iff)
  with nsp have skip: "dropWhile isStrWhiteSpaceChar (w3 @ a @ CHR '')'' # rest) = a @ CHR '')'' # rest"
    unfolding a by (simp add: dropWhile_append3)
  from all have tw: "takeWhile isDigitOrDot (a @ CHR '')'' # rest) = a"
    by (simp add: takeWhile_tail digit_chars)
  from all have dw: "dropWhile isDigitOrDot (a @ CHR '')'' # rest) = CHR '')'' # rest"
    by (simp add: dropWhile_append3 digit_chars)
  from a have "a \<noteq> []" by simp
  then show ?thesis by (simp add: alphaGroup_def skip tw dw)
qed

lemma matchRgbAt_rgba:
  assumes "digitString r" "digitString g" "digitString b" "whiteSpaceString w1" "whiteSpaceString w2"
    "whiteSpaceString w3" "alphaString a"
  shows "matchRgbAt (rgbaText r w1 g w2 b w3 a @ rest) = Some (r, g, b)"
proof -
  have 1: "digits (r @ CHR '','' # w1 @ g @ CHR '','' # w2 @ b @ CHR '','' # w3 @ a @ CHR '')'' # rest)
      = Some (r, CHR '','' # w1 @ g @ CHR '','' # w2 @ b @ CHR '','' # w3 @ a @ CHR '')'' # rest)"
    by (rule digits_then [OF assms(1)]) (simp add: digit_chars)
  have 2: "dropWhile isStrWhiteSpaceChar (w1 @ g @ CHR '','' # w2 @ b @ CHR '','' # w3 @ a @ CHR '')'' # rest)
      = g @ CHR '','' # w2 @ b @ CHR '','' # w3 @ a @ CHR '')'' # rest"
    by (rule skip_space [OF assms(4) assms(2)])
  have 3: "digits (g @ CHR '','' # w2 @ b @ CHR '','' # w3 @ a @ CHR '')'' # rest)
      = Some (g, CHR '','' # w2 @ b @ CHR '','' # w3 @ a @ CHR '')'' # rest)"
    by (rule digits_then [OF assms(2)]) (simp add: digit_chars)
  have 4: "dropWhile isStrWhiteSpaceChar (w2 @ b @ CHR '','' # w3 @ a @ CHR '')'' # rest)
      = b @ CHR '','' # w3 @ a @ CHR '')'' # rest"
    by (rule skip_space [OF assms(5) assms(3)])
  have 5: "digits (b @ CHR '','' # w3 @ a @ CHR '')'' # rest)
      = Some (b, CHR '','' # w3 @ a @ CHR '')'' # rest)"
    by (rule digits_then [OF assms(3)]) (simp add: digit_chars)
  note 6 = alphaGroup_alpha [OF assms(6) assms(7), of rest]
  show ?thesis
    by (simp add: matchRgbAt_def rgbaText_def optionalA_def 1 2 3 4 5 6)
qed

lemma rgbMatch_first: "matchRgbAt s = Some m \<Longrightarrow> rgbMatch s = Some m"
  by (cases s) (simp_all add: matchRgbAt_def)

lemma parseInt_digitString:
  assumes "digitString r"
  shows "parseInt r = Some (int (decimalValue 0 r))"
proof -
  from assms obtain d ds where r: "r = d # ds" and d: "isDigit d"
    and all: "\<forall>c \<in> set r. isDigit c"
    by (cases r) (auto simp: digitString_def list_all_iff)
  from d have "\<not> isStrWhiteSpaceChar d" "d \<noteq> CHR ''-''" "d \<noteq> CHR ''+''"
    using digit_chars by (auto simp: digit_not_space)
  moreover from all have "takeWhile isDigit r = r" by (simp add: takeWhile_eq_all_conv)
  ultimately show ?thesis using r by (simp add: parseInt_def)
qed

lemma hexDigit_0: "hexDigit 0 = CHR ''0''"
  by code_simp

lemma hexDigits_byte: "n < 256 \<Longrightarrow> padStart2 (hexDigits n) = hex2 n"
proof (cases "n < 16")
  case True
  then show ?thesis by (simp add: hexDigits.simps padStart2_def hex2_def hexDigit_0)
next
  case False
  assume "n < 256"
  with False have "n div 16 < 16" by simp
  with False show ?thesis
    by (simp add: hexDigits.simps [of n] hexDigits.simps [of "n div 16"] padStart2_def hex2_def)
qed

text \<open>The two characters of \<open>hex2\<close> are the base-16 digits of a byte, in lower case.\<close>

lemma hexDigit_table: "map hexDigit [0..<16] = ''0123456789abcdef''"
  by code_simp

lemma hexDigit_nth: "d < 16 \<Longrightarrow> hexDigit d = ''0123456789abcdef'' ! d"
proof -
  assume d: "d < 16"
  then have "map hexDigit [0..<16] ! d = hexDigit d" by simp
  then show ?thesis by (simp add: hexDigit_table)
qed

lemma hex2_digits:
  "n < 256 \<Longrightarrow> hex2 n = [''0123456789abcdef'' ! (n div 16), ''0123456789abcdef'' ! (n mod 16)]"
  by (simp add: hex2_def hexDigit_nth)

lemma channel_hex:
  assumes "digitString r" and "decimalValue 0 r < 256"
  shows "padStart2 (toString16 inexact (parseInt r)) = hex2 (decimalValue 0 r)"
proof -
  have "(256::int) < 2 ^ 53" by simp
  with assms(2) have "int (decimalValue 0 r) < 2 ^ 53" by linarith
  with assms show ?thesis
    by (simp add: parseInt_digitString toString16_def hexDigits_byte)
qed

lemma trim_Nil: "trim [] = []"
  by (simp add: trim_def)

lemma expect_Some: "expect p s = Some t \<longleftrightarrow> s = p @ t"
  by (induction p s rule: expect.induct) auto

lemma matchRgbAt_paren: "matchRgbAt s = Some m \<Longrightarrow> CHR ''('' \<in> set s"
proof -
  assume "matchRgbAt s = Some m"
  then obtain s1 s2 where s1: "expect ''rgb'' s = Some s1"
    and s2: "expect ''('' (optionalA s1) = Some s2"
    by (auto simp: matchRgbAt_def Option.bind_eq_Some_conv)
  from s2 have "CHR ''('' \<in> set (optionalA s1)" by (simp add: expect_Some)
  then have "CHR ''('' \<in> set s1"
    by (cases s1) (auto simp: optionalA_def split: if_splits)
  with s1 show ?thesis by (simp add: expect_Some)
qed

lemma rgbMatch_paren: "rgbMatch s = Some m \<Longrightarrow> CHR ''('' \<in> set s"
proof (induction s)
  case Nil
  then show ?case by simp
next
  case (Cons c cs)
  show ?case
  proof (cases "matchRgbAt (c # cs)")
    case None
    with Cons show ?thesis by simp
  next
    case (Some m')
    then show ?thesis by (rule matchRgbAt_paren)
  qed
qed

lemma toLowerChar_range:
  "\<not> (65 \<le> (of_char (toLowerChar c) :: nat) \<and> (of_char (toLowerChar c) :: nat) \<le> 90)"
  by (auto simp: toLowerChar_def Let_def)

lemma toLowerChar_low: "(of_char c :: nat) < 65 \<Longrightarrow> toLowerChar c = c"
  by (simp add: toLowerChar_def Let_def)

lemma toLowerChar_low_inv:
  assumes "toLowerChar c = x" and "(of_char x :: nat) < 65"
  shows "c = x"
proof (rule ccontr)
  assume "c \<noteq> x"
  with assms(1) have "x = char_of ((of_char c :: nat) + 32)"
    and "(65 \<le> (of_char c :: nat) \<and> (of_char c :: nat) \<le> 90) \<or>
         (192 \<le> (of_char c :: nat) \<and> (of_char c :: nat) \<le> 222)"
    by (auto simp: toLowerChar_def Let_def split: if_splits)
  then have "(of_char x :: nat) \<ge> 97" by auto
  with assms(2) show False by simp
qed

lemma toLowerCase_absent:
  assumes "toLowerCase s = k" and "x \<notin> set k" and "(of_char x :: nat) < 65"
  shows "x \<notin> set s"
proof
  assume "x \<in> set s"
  then have "toLowerChar x \<in> set (toLowerCase s)" by (simp add: toLowerCase_def)
  with assms toLowerChar_low [of x] show False by simp
qed

lemma toLowerCase_no_capital:
  "toLowerCase s = k \<Longrightarrow> x \<in> set k \<Longrightarrow> \<not> (65 \<le> (of_char x :: nat) \<and> (of_char x :: nat) \<le> 90)"
  using toLowerChar_range by (auto simp: toLowerCase_def)

lemma inherited_keys_reachable:
  assumes "toLowerCase s \<in> set objectPrototypeKeys"
  shows "toLowerCase s = ''constructor'' \<or> toLowerCase s = ''__proto__''"
proof -
  have cap: "False" if "toLowerCase s = k" and "x \<in> set k"
    and "65 \<le> (of_char x :: nat) \<and> (of_char x :: nat) \<le> 90" for k x
    using toLowerCase_no_capital [OF that(1) that(2)] that(3) by simp
  from assms consider
      "toLowerCase s = ''constructor''" | "toLowerCase s = ''__proto__''"
    | "toLowerCase s = ''hasOwnProperty''" | "toLowerCase s = ''isPrototypeOf''"
    | "toLowerCase s = ''propertyIsEnumerable''" | "toLowerCase s = ''toLocaleString''"
    | "toLowerCase s = ''toString''" | "toLowerCase s = ''valueOf''"
    | "toLowerCase s = ''__defineGetter__''" | "toLowerCase s = ''__defineSetter__''"
    | "toLowerCase s = ''__lookupGetter__''" | "toLowerCase s = ''__lookupSetter__''"
    by (auto simp: objectPrototypeKeys_def)
  then show ?thesis
  proof cases
    case 3 from cap [OF this, of "CHR ''O''"] show ?thesis by simp
  next
    case 4 from cap [OF this, of "CHR ''P''"] show ?thesis by simp
  next
    case 5 from cap [OF this, of "CHR ''I''"] show ?thesis by simp
  next
    case 6 from cap [OF this, of "CHR ''L''"] show ?thesis by simp
  next
    case 7 from cap [OF this, of "CHR ''S''"] show ?thesis by simp
  next
    case 8 from cap [OF this, of "CHR ''O''"] show ?thesis by simp
  next
    case 9 from cap [OF this, of "CHR ''G''"] show ?thesis by simp
  next
    case 10 from cap [OF this, of "CHR ''S''"] show ?thesis by simp
  next
    case 11 from cap [OF this, of "CHR ''G''"] show ?thesis by simp
  next
    case 12 from cap [OF this, of "CHR ''S''"] show ?thesis by simp
  qed simp_all
qed

lemma namedColors_lookup:
  "(k, v) \<in> set namedColors \<Longrightarrow> map_of namedColors k = Some v"
  by (rule map_of_is_SomeI) (simp_all add: namedColors_def)

lemma namedColors_values:
  "map_of namedColors k = Some v \<Longrightarrow> v = ''transparent'' \<or> (\<exists>t. v = CHR ''#'' # t)"
  by (drule map_of_SomeD) (auto simp: namedColors_def)

lemma namedColors_keys:
  "(k, v) \<in> set namedColors \<Longrightarrow>
   k \<noteq> [] \<and> CHR ''#'' \<notin> set k \<and> CHR ''('' \<notin> set k \<and> k \<notin> set objectPrototypeKeys"
  by (auto simp: namedColors_def objectPrototypeKeys_def)

lemma expect_hash: "expect ''#'' s \<noteq> None \<longleftrightarrow> (\<exists>t. s = CHR ''#'' # t)"
  by (cases s) auto

lemma parseColor_shape:
  assumes "toLowerCase (trim color) \<noteq> ''constructor''"
    and "toLowerCase (trim color) \<noteq> ''__proto__''"
  shows "\<exists>s. parseColor inexact color = JString s \<and> (s = ''transparent'' \<or> (\<exists>t. s = CHR ''#'' # t))"
proof (cases "color = []")
  case True
  then show ?thesis by (simp add: parseColor_def)
next
  case ne: False
  show ?thesis
  proof (cases "expect ''#'' (trim color) \<noteq> None")
    case True
    then obtain t where "trim color = CHR ''#'' # t"
      using expect_hash [of "trim color"] by blast
    with ne True show ?thesis by (simp add: parseColor_def Let_def)
  next
    case nohash: False
    show ?thesis
    proof (cases "rgbMatch (trim color)")
      case (Some m)
      with ne nohash show ?thesis
        by (cases m) (simp add: parseColor_def Let_def)
    next
      case None
      from assms inherited_keys_reachable [of "trim color"]
      have ninh: "toLowerCase (trim color) \<notin> set objectPrototypeKeys" by blast
      show ?thesis
      proof (cases "map_of namedColors (toLowerCase (trim color))")
        case nolook: None
        with ne nohash None ninh show ?thesis
          by (simp add: parseColor_def Let_def namedColorsGet_def)
      next
        case (Some v)
        from namedColors_values [OF Some] ne nohash None Some show ?thesis
          by (auto simp: parseColor_def Let_def namedColorsGet_def truthy_def)
      qed
    qed
  qed
qed

lemma parseColor_hex4:
  assumes "trim color = [CHR ''#'', x, y, z]"
  shows "parseColor inexact color = JString [CHR ''#'', x, x, y, y, z, z]"
proof -
  from assms have "color \<noteq> []" using trim_Nil by auto
  with assms show ?thesis by (simp add: parseColor_def Let_def)
qed

lemma parseColor_matched:
  assumes "trim color = s" and "matchRgbAt s = Some (r, g, b)"
    and "digitString r" "digitString g" "digitString b"
    and "decimalValue 0 r < 256" "decimalValue 0 g < 256" "decimalValue 0 b < 256"
  shows "parseColor inexact color
    = JString (CHR ''#'' # hex2 (decimalValue 0 r) @ hex2 (decimalValue 0 g)
                        @ hex2 (decimalValue 0 b))"
proof -
  from assms(2) have "expect ''rgb'' s \<noteq> None"
    by (auto simp: matchRgbAt_def Option.bind_eq_Some_conv)
  then obtain t where s: "s = ''rgb'' @ t" by (auto simp: expect_Some)
  with assms(1) have ne: "color \<noteq> []" using trim_Nil by auto
  from s have nohash: "expect ''#'' s = None" by simp
  note m = rgbMatch_first [OF assms(2)]
  from ne nohash m assms(1) show ?thesis
    by (simp add: parseColor_def Let_def channel_hex assms)
qed

lemma parseColor_rgb:
  assumes "digitString r" "digitString g" "digitString b" "whiteSpaceString w1" "whiteSpaceString w2"
    and "decimalValue 0 r < 256" "decimalValue 0 g < 256" "decimalValue 0 b < 256"
    and "trim color = rgbText r w1 g w2 b"
  shows "parseColor inexact color
    = JString (CHR ''#'' # hex2 (decimalValue 0 r) @ hex2 (decimalValue 0 g)
                        @ hex2 (decimalValue 0 b))"
  using matchRgbAt_rgb [OF assms(1-5), of "[]"] assms
  by (intro parseColor_matched [where s = "rgbText r w1 g w2 b"]) simp_all

lemma parseColor_rgba:
  assumes "digitString r" "digitString g" "digitString b" "whiteSpaceString w1" "whiteSpaceString w2"
    and "whiteSpaceString w3" "alphaString a"
    and "decimalValue 0 r < 256" "decimalValue 0 g < 256" "decimalValue 0 b < 256"
    and "trim color = rgbaText r w1 g w2 b w3 a"
  shows "parseColor inexact color
    = JString (CHR ''#'' # hex2 (decimalValue 0 r) @ hex2 (decimalValue 0 g)
                        @ hex2 (decimalValue 0 b))"
  using matchRgbAt_rgba [OF assms(1-7), of "[]"] assms
  by (intro parseColor_matched [where s = "rgbaText r w1 g w2 b w3 a"]) simp_all

lemma parseColor_named:
  assumes "(k, v) \<in> set namedColors" and "toLowerCase (trim color) = k"
  shows "parseColor inexact color = JString v"
proof -
  note keys = namedColors_keys [OF assms(1)]
  from keys assms(2) have ne: "color \<noteq> []" using trim_Nil by (auto simp: toLowerCase_def)
  from keys have "CHR ''#'' \<notin> set (trim color)"
    by (intro toLowerCase_absent [OF assms(2)]) simp_all
  then have nohash: "expect ''#'' (trim color) = None"
    using expect_hash [of "trim color"] by auto
  from keys have "CHR ''('' \<notin> set (trim color)"
    by (intro toLowerCase_absent [OF assms(2)]) simp_all
  with rgbMatch_paren [of "trim color"] have nomatch: "rgbMatch (trim color) = None"
    by (cases "rgbMatch (trim color)") auto
  from namedColors_values [OF namedColors_lookup [OF assms(1)]] have "v \<noteq> []" by auto
  with ne nohash nomatch namedColors_lookup [OF assms(1)] assms(2) show ?thesis
    by (simp add: parseColor_def Let_def namedColorsGet_def truthy_def)
qed

lemma parseColor_default:
  assumes "color = [] \<or>
    (expect ''#'' (trim color) = None \<and> rgbMatch (trim color) = None \<and>
     toLowerCase (trim color) \<notin> fst ` set namedColors \<and>
     toLowerCase (trim color) \<noteq> ''constructor'' \<and> toLowerCase (trim color) \<noteq> ''__proto__'')"
  shows "parseColor inexact color = JString ''#000000''"
proof (cases "color = []")
  case True
  then show ?thesis by (simp add: parseColor_def)
next
  case False
  with assms have h: "expect ''#'' (trim color) = None" "rgbMatch (trim color) = None"
    "toLowerCase (trim color) \<notin> fst ` set namedColors"
    "toLowerCase (trim color) \<noteq> ''constructor''" "toLowerCase (trim color) \<noteq> ''__proto__''"
    by simp_all
  from h(3) have "map_of namedColors (toLowerCase (trim color)) = None"
    by (simp add: map_of_eq_None_iff)
  moreover from h(4,5) inherited_keys_reachable [of "trim color"]
  have "toLowerCase (trim color) \<notin> set objectPrototypeKeys" by blast
  ultimately show ?thesis using False h(1,2)
    by (simp add: parseColor_def Let_def namedColorsGet_def)
qed

text \<open>
  Where \<^verbatim>\<open>parseColor\<close> does what is said of it. For every input string whose trimmed,
  lower-cased text is not \<^verbatim>\<open>constructor\<close> or \<^verbatim>\<open>__proto__\<close>, it returns the string
  \<^verbatim>\<open>transparent\<close> or a string starting with \<^verbatim>\<open>#\<close>. A four-character value \<^verbatim>\<open>#xyz\<close> is
  expanded to \<^verbatim>\<open>#xxyyzz\<close>. An \<^verbatim>\<open>rgb(r, g, b)\<close> or \<^verbatim>\<open>rgba(r, g, b, a)\<close> value whose three
  channels are at most 255 becomes \<^verbatim>\<open>#\<close> followed by two zero-padded hexadecimal digits
  per channel, the alpha value discarded. A named colour of the table, in any letter case,
  gives its fixed value. The empty string, and every other value that does not start with
  \<^verbatim>\<open>#\<close>, holds no \<^verbatim>\<open>rgb(...)\<close> match, and is neither a named colour nor one of the two
  keys above, gives \<^verbatim>\<open>#000000\<close>. White space around the value is ignored throughout.
\<close>

lemma parseColor_cases:
  "(toLowerCase (trim color) \<noteq> ''constructor'' \<and> toLowerCase (trim color) \<noteq> ''__proto__'' \<longrightarrow>
      (\<exists>s. parseColor inexact color = JString s \<and>
           (s = ''transparent'' \<or> (\<exists>t. s = CHR ''#'' # t)))) \<and>
   (trim color = [CHR ''#'', x, y, z] \<longrightarrow>
      parseColor inexact color = JString [CHR ''#'', x, x, y, y, z, z]) \<and>
   (digitString r \<and> digitString g \<and> digitString b \<and>
    whiteSpaceString w1 \<and> whiteSpaceString w2 \<and>
    decimalValue 0 r < 256 \<and> decimalValue 0 g < 256 \<and> decimalValue 0 b < 256 \<and>
    trim color = rgbText r w1 g w2 b \<longrightarrow>
      parseColor inexact color
        = JString (CHR ''#'' # hex2 (decimalValue 0 r) @ hex2 (decimalValue 0 g)
                            @ hex2 (decimalValue 0 b))) \<and>
   (digitString r \<and> digitString g \<and> digitString b \<and>
    whiteSpaceString w1 \<and> whiteSpaceString w2 \<and> whiteSpaceString w3 \<and> alphaString a \<and>
    decimalValue 0 r < 256 \<and> decimalValue 0 g < 256 \<and> decimalValue 0 b < 256 \<and>
    trim color = rgbaText r w1 g w2 b w3 a \<longrightarrow>
      parseColor inexact color
        = JString (CHR ''#'' # hex2 (decimalValue 0 r) @ hex2 (decimalValue 0 g)
                            @ hex2 (decimalValue 0 b))) \<and>
   ((k, v) \<in> set namedColors \<and> toLowerCase (trim color) = k \<longrightarrow>
      parseColor inexact color = JString v) \<and>
   (color = [] \<or>
    (expect ''#'' (trim color) = None \<and> rgbMatch (trim color) = None \<and>
     toLowerCase (trim color) \<notin> fst ` set namedColors \<and>
     toLowerCase (trim color) \<noteq> ''constructor'' \<and> toLowerCase (trim color) \<noteq> ''__proto__'') \<longrightarrow>
      parseColor inexact color = JString ''#000000'')"
proof (intro conjI impI)
  assume "toLowerCase (trim color) \<noteq> ''constructor'' \<and> toLowerCase (trim color) \<noteq> ''__proto__''"
  then show "\<exists>s. parseColor inexact color = JString s \<and>
           (s = ''transparent'' \<or> (\<exists>t. s = CHR ''#'' # t))"
    using parseColor_shape by blast
next
  assume "trim color = [CHR ''#'', x, y, z]"
  then show "parseColor inexact color = JString [CHR ''#'', x, x, y, y, z, z]"
    by (rule parseColor_hex4)
next
  assume "digitString r \<and> digitString g \<and> digitString b \<and>
    whiteSpaceString w1 \<and> whiteSpaceString w2 \<and>
    decimalValue 0 r < 256 \<and> decimalValue 0 g < 256 \<and> decimalValue 0 b < 256 \<and>
    trim color = rgbText r w1 g w2 b"
  then show "parseColor inexact color
        = JString (CHR ''#'' # hex2 (decimalValue 0 r) @ hex2 (decimalValue 0 g)
                            @ hex2 (decimalValue 0 b))"
    using parseColor_rgb by blast
next
  assume "digitString r \<and> digitString g \<and> digitString b \<and>
    whiteSpaceString w1 \<and> whiteSpaceString w2 \<and> whiteSpaceString w3 \<and> alphaString a \<and>
    decimalValue 0 r < 256 \<and> decimalValue 0 g < 256 \<and> decimalValue 0 b < 256 \<and>
    trim color = rgbaText r w1 g w2 b w3 a"
  then show "parseColor inexact color
        = JString (CHR ''#'' # hex2 (decimalValue 0 r) @ hex2 (decimalValue 0 g)
                            @ hex2 (decimalValue 0 b))"
    using parseColor_rgba by blast
next
  assume "(k, v) \<in> set namedColors \<and> toLowerCase (trim color) = k"
  then show "parseColor inexact color = JString v"
    using parseColor_named by blast
next
  assume "color = [] \<or>
    (expect ''#'' (trim color) = None \<and> rgbMatch (trim color) = None \<and>
     toLowerCase (trim color) \<notin> fst ` set namedColors \<and>
     toLowerCase (trim color) \<noteq> ''constructor'' \<and> toLowerCase (trim color) \<noteq> ''__proto__'')"
  then show "parseColor inexact color = JString ''#000000''"
    by (rule parseColor_default)
qed

lemma parseColor_cases_examples:
  "parseColor (\<lambda>n. ''Infinity'') '' ReD '' = JString ''#ff0000'' \<and>
   parseColor (\<lambda>n. ''Infinity'') ''#abc'' = JString ''#aabbcc'' \<and>
   parseColor (\<lambda>n. ''Infinity'') ''rgb(255, 128,0)'' = JString ''#ff8000'' \<and>
   parseColor (\<lambda>n. ''Infinity'') ''rgba(1,2, 30, 0.5)'' = JString ''#01021e'' \<and>
   parseColor (\<lambda>n. ''Infinity'') ''fuchsia'' = JString ''#000000''"
proof -
  let ?I = "\<lambda>n::nat. ''Infinity''"
  have red: "(''red'', ''#ff0000'') \<in> set namedColors \<and> toLowerCase (trim '' ReD '') = ''red''"
    by code_simp
  have hex: "trim ''#abc'' = [CHR ''#'', CHR ''a'', CHR ''b'', CHR ''c'']"
    by code_simp
  have rgb: "digitString ''255'' \<and> digitString ''128'' \<and> digitString ''0'' \<and>
    whiteSpaceString '' '' \<and> whiteSpaceString [] \<and>
    decimalValue 0 ''255'' < 256 \<and> decimalValue 0 ''128'' < 256 \<and> decimalValue 0 ''0'' < 256 \<and>
    trim ''rgb(255, 128,0)'' = rgbText ''255'' '' '' ''128'' [] ''0''"
    by code_simp
  have rgba: "digitString ''1'' \<and> digitString ''2'' \<and> digitString ''30'' \<and>
    whiteSpaceString [] \<and> whiteSpaceString '' '' \<and> whiteSpaceString '' '' \<and> alphaString ''0.5'' \<and>
    decimalValue 0 ''1'' < 256 \<and> decimalValue 0 ''2'' < 256 \<and> decimalValue 0 ''30'' < 256 \<and>
    trim ''rgba(1,2, 30, 0.5)'' = rgbaText ''1'' [] ''2'' '' '' ''30'' '' '' ''0.5''"
    by code_simp
  have dflt: "''fuchsia'' = [] \<or>
    (expect ''#'' (trim ''fuchsia'') = None \<and> rgbMatch (trim ''fuchsia'') = None \<and>
     toLowerCase (trim ''fuchsia'') \<notin> fst ` set namedColors \<and>
     toLowerCase (trim ''fuchsia'') \<noteq> ''constructor'' \<and>
     toLowerCase (trim ''fuchsia'') \<noteq> ''__proto__'')"
    by code_simp
  have shape: "toLowerCase (trim '' ReD '') \<noteq> ''constructor'' \<and>
    toLowerCase (trim '' ReD '') \<noteq> ''__proto__''"
    by code_simp
  have vals: "hex2 (decimalValue 0 ''255'') = ''ff''" "hex2 (decimalValue 0 ''128'') = ''80''"
    "hex2 (decimalValue 0 ''0'') = ''00''" "hex2 (decimalValue 0 ''1'') = ''01''"
    "hex2 (decimalValue 0 ''2'') = ''02''" "hex2 (decimalValue 0 ''30'') = ''1e''"
    by code_simp+
  from parseColor_cases [of "'' ReD ''" ?I] red
  have 1: "parseColor ?I '' ReD '' = JString ''#ff0000''" by blast
  from parseColor_cases [of "''#abc''" ?I "CHR ''a''" "CHR ''b''" "CHR ''c''"] hex
  have 2: "parseColor ?I ''#abc'' = JString ''#aabbcc''" by simp
  from parseColor_cases [of "''rgb(255, 128,0)''" ?I _ _ _ "''255''" "''128''" "''0''" "'' ''" "[]"] rgb
  have 3: "parseColor ?I ''rgb(255, 128,0)'' = JString ''#ff8000''"
    unfolding vals by simp
  from parseColor_cases [of "''rgba(1,2, 30, 0.5)''" ?I _ _ _ "''1''" "''2''" "''30''" "[]" "'' ''"
      "'' ''" "''0.5''"] rgba
  have 4: "parseColor ?I ''rgba(1,2, 30, 0.5)'' = JString ''#01021e''"
    unfolding vals by simp
  from parseColor_cases [of "''fuchsia''" ?I] dflt
  have 5: "parseColor ?I ''fuchsia'' = JString ''#000000''" by blast
  from parseColor_cases [of "'' ReD ''" ?I] shape
  have "\<exists>s. parseColor ?I '' ReD '' = JString s \<and> (s = ''transparent'' \<or> (\<exists>t. s = CHR ''#'' # t))"
    by blast
  with 1 2 3 4 5 show ?thesis by simp
qed

text \<open>
  Claim C10. For every input string \<^verbatim>\<open>parseColor\<close> should return \<^verbatim>\<open>transparent\<close> or a
  string starting with \<^verbatim>\<open>#\<close>, and an \<^verbatim>\<open>rgb(r, g, b)\<close> value should become a six-digit
  hexadecimal string with two zero-padded digits per channel. The code does not do so for
  a channel above 255, which CSS allows and clamps: the hexadecimal text of a channel is
  padded to two digits and never cut or clamped, so \<^verbatim>\<open>rgb(256, 0, 0)\<close> gives seven digits
  after the \<^verbatim>\<open>#\<close>.
\<close>

theorem parseColor_channel_above_255:
  "parseColor (\<lambda>n. ''Infinity'') ''rgb(256, 0, 0)'' = JString ''#1000000'' \<and>
   length ''#1000000'' = 8"
  by code_simp

text \<open>
  A second input where the method misses its description: \<^verbatim>\<open>constructor\<close> and
  \<^verbatim>\<open>__proto__\<close> are found on \<^verbatim>\<open>Object.prototype\<close> by the table lookup, and what
  \<^verbatim>\<open>parseColor\<close> returns for them is not a string, against its declared return type.
\<close>

lemma parseColor_inherited_key:
  "parseColor (\<lambda>n. ''Infinity'') ''constructor'' = JInherited ''constructor'' \<and>
   parseColor (\<lambda>n. ''Infinity'') '' __PROTO__ '' = JInherited ''__proto__''"
  by code_simp

section \<open>Properties of ComponentLibraryManagerTool\<close>

lemmas tool_defs =
  executeCore_def createComponent_def deleteComponent_def syncInstances_def detachInstance_def
  getInstances_def updateComponent_def whenTruthy_def truthyString_def

text \<open>
  Claim C8. When the operation needs an argument that is absent, \<^verbatim>\<open>executeCore\<close> returns a
  text response that begins with \<^verbatim>\<open>Error:\<close> and names the missing argument, and the state
  behind the bridge is the one it started from, whatever \<^verbatim>\<open>executePluginTask\<close> would do:
  no task is submitted. The cases are \<^verbatim>\<open>create\<close> with \<^verbatim>\<open>shapeIds\<close> missing or empty;
  \<^verbatim>\<open>delete\<close>, \<^verbatim>\<open>sync\<close>, \<^verbatim>\<open>getInstances\<close> and \<^verbatim>\<open>update\<close> with \<^verbatim>\<open>componentId\<close> missing;
  \<^verbatim>\<open>detach\<close> with \<^verbatim>\<open>instanceId\<close> missing; and \<^verbatim>\<open>update\<close> with both \<^verbatim>\<open>updates\<close> and
  \<^verbatim>\<open>name\<close> missing. The code tests truthiness, so an empty string counts as missing.
\<close>

theorem executeCore_missing_argument:
  "(operation args = Op_create \<and> (shapeIds args = None \<or> shapeIds args = Some []) \<longrightarrow>
      executeCore executePluginTask stringify args s
        = (Inr (TextResponse ''Error: 'shapeIds' is required for 'create' operation''), s)) \<and>
   (operation args = Op_delete \<and> \<not> truthyString (componentId args) \<longrightarrow>
      executeCore executePluginTask stringify args s
        = (Inr (TextResponse ''Error: 'componentId' is required for 'delete' operation''), s)) \<and>
   (operation args = Op_sync \<and> \<not> truthyString (componentId args) \<longrightarrow>
      executeCore executePluginTask stringify args s
        = (Inr (TextResponse ''Error: 'componentId' is required for 'sync' operation''), s)) \<and>
   (operation args = Op_getInstances \<and> \<not> truthyString (componentId args) \<longrightarrow>
      executeCore executePluginTask stringify args s
        = (Inr (TextResponse ''Error: 'componentId' is required for 'getInstances' operation''),
           s)) \<and>
   (operation args = Op_update \<and> \<not> truthyString (componentId args) \<longrightarrow>
      executeCore executePluginTask stringify args s
        = (Inr (TextResponse ''Error: 'componentId' is required for 'update' operation''), s)) \<and>
   (operation args = Op_detach \<and> \<not> truthyString (instanceId args) \<longrightarrow>
      executeCore executePluginTask stringify args s
        = (Inr (TextResponse ''Error: 'instanceId' is required for 'detach' operation''), s)) \<and>
   (operation args = Op_update \<and> truthyString (componentId args) \<and>
    updates args = None \<and> \<not> truthyString (name args) \<longrightarrow>
      executeCore executePluginTask stringify args s
        = (Inr (TextResponse ''Error: 'updates' or 'name' is required for 'update' operation''),
           s))"
  by (auto simp: tool_defs split: option.splits)

theorem executeCore_missing_argument_witness:
  "executeCore (recordingBridge \<lparr>status = Ok, data = Some ''{}'', errorMessage = None\<rparr>) id
     \<lparr>operation = Op_create, shapeIds = Some [], componentId = None, instanceId = None,
      name = Some ''Button'', filterArg = None, updates = None\<rparr> []
     = (Inr (TextResponse ''Error: 'shapeIds' is required for 'create' operation''), []) \<and>
   executeCore (recordingBridge \<lparr>status = Ok, data = Some ''{}'', errorMessage = None\<rparr>) id
     \<lparr>operation = Op_update, shapeIds = None, componentId = Some ''c1'', instanceId = None,
      name = None, filterArg = None, updates = None\<rparr> []
     = (Inr (TextResponse ''Error: 'updates' or 'name' is required for 'update' operation''), [])"
  using
    executeCore_missing_argument
      [of "\<lparr>operation = Op_create, shapeIds = Some [], componentId = None, instanceId = None,
            name = Some ''Button'', filterArg = None, updates = None\<rparr>"
          "recordingBridge \<lparr>status = Ok, data = Some ''{}'', errorMessage = None\<rparr>" id "[]"]
    executeCore_missing_argument
      [of "\<lparr>operation = Op_update, shapeIds = None, componentId = Some ''c1'', instanceId = None,
            name = None, filterArg = None, updates = None\<rparr>"
          "recordingBridge \<lparr>status = Ok, data = Some ''{}'', errorMessage = None\<rparr>" id "[]"]
  by (simp add: truthyString_def)

text \<open>With its arguments present the same call does submit a task.\<close>

lemma executeCore_submits:
  "executeCore (recordingBridge \<lparr>status = Ok, data = Some ''{}'', errorMessage = None\<rparr>) id
     \<lparr>operation = Op_create, shapeIds = Some [''s1''], componentId = None, instanceId = None,
      name = Some ''Button'', filterArg = None, updates = None\<rparr> []
     = (Inr (TextResponse ''{}''), [CreateComponentCode [''s1''] (Some ''Button'')])"
  by (simp add: tool_defs executePluginCode_def recordingBridge_def)

section \<open>Properties of the Task Registry\<close>

text \<open>
  The registry keeps at most one pending entry per task id: the empty registry does, and
  \<^verbatim>\<open>register\<close> keeps it so.
\<close>

lemma emptyRegistry_distinct: "distinct (map taskId (pending emptyRegistry))"
  by (simp add: emptyRegistry_def)

lemma register_distinct:
  "distinct (map taskId (pending reg)) \<Longrightarrow> register tid cid dl reg = Inr reg' \<Longrightarrow>
   distinct (map taskId (pending reg'))"
  by (auto simp: register_def split: if_splits)

lemma resolve_fold:
  fixes res :: "pending_entry \<Rightarrow> 'd task_result"
  assumes "distinct (map taskId es)" and "taskId ` set es \<subseteq> taskId ` set (pending reg)"
  shows "fold (\<lambda>e r. if P e then snd (resolve (taskId e) (res e) r) else r) es reg
    = reg\<lparr>pending := filter (\<lambda>x. taskId x \<notin> taskId ` set (filter P es)) (pending reg),
          delivered := delivered reg @ map (\<lambda>e. (taskId e, res e)) (filter P es)\<rparr>"
  using assms
proof (induction es arbitrary: reg)
  case Nil
  then show ?case by simp
next
  case (Cons e es)
  let ?f = "\<lambda>e r. if P e then snd (resolve (taskId e) (res e) r) else r"
  show ?case
  proof (cases "P e")
    case False
    with Cons show ?thesis by simp
  next
    case True
    let ?reg1 = "snd (resolve (taskId e) (res e) reg)"
    from Cons.prems have in_reg: "taskId e \<in> taskId ` set (pending reg)" by simp
    then have reg1: "?reg1 = reg\<lparr>pending := filter (\<lambda>x. taskId x \<noteq> taskId e) (pending reg),
                     delivered := delivered reg @ [(taskId e, res e)]\<rparr>"
      by (simp add: resolve_def)
    from Cons.prems have d: "distinct (map taskId es)" and notin: "taskId e \<notin> taskId ` set es"
      by auto
    have sub: "taskId ` set es \<subseteq> taskId ` set (pending ?reg1)"
    proof
      fix k assume k: "k \<in> taskId ` set es"
      with Cons.prems obtain y where "y \<in> set (pending reg)" and "taskId y = k" by auto
      moreover from k notin have "k \<noteq> taskId e" by blast
      ultimately show "k \<in> taskId ` set (pending ?reg1)" unfolding reg1 by auto
    qed
    have "fold ?f (e # es) reg = fold ?f es ?reg1" using True by simp
    also have "\<dots> = ?reg1\<lparr>pending := filter (\<lambda>x. taskId x \<notin> taskId ` set (filter P es)) (pending ?reg1),
          delivered := delivered ?reg1 @ map (\<lambda>e. (taskId e, res e)) (filter P es)\<rparr>"
      by (rule Cons.IH [OF d sub])
    also have "\<dots> = reg\<lparr>pending := filter (\<lambda>x. taskId x \<notin> taskId ` set (filter P (e # es))) (pending reg),
          delivered := delivered reg @ map (\<lambda>e. (taskId e, res e)) (filter P (e # es))\<rparr>"
      unfolding reg1 using True by (auto intro!: filter_cong)
    finally show ?thesis .
  qed
qed

lemma distinct_ids_filter:
  "distinct (map taskId es) \<Longrightarrow>
   filter (\<lambda>x. taskId x \<notin> taskId ` set (filter P es)) es = filter (\<lambda>x. \<not> P x) es"
proof (rule filter_cong [OF refl])
  fix x assume d: "distinct (map taskId es)" and x: "x \<in> set es"
  have "taskId x \<in> taskId ` set (filter P es) \<longleftrightarrow> P x"
  proof
    assume "taskId x \<in> taskId ` set (filter P es)"
    then obtain y where y: "y \<in> set es" "P y" "taskId y = taskId x" by auto
    with d x have "y = x" by (meson distinct_map inj_onD)
    with y show "P x" by simp
  next
    assume "P x" with x show "taskId x \<in> taskId ` set (filter P es)" by auto
  qed
  then show "(taskId x \<notin> taskId ` set (filter P es)) = (\<not> P x)" by simp
qed

lemma failAllForConnection_eq:
  fixes reg :: "'d registry"
  assumes "distinct (map taskId (pending reg))"
  shows "failAllForConnection cid reason reg
    = reg\<lparr>pending := filter (\<lambda>e. connectionId e \<noteq> cid) (pending reg),
          delivered := delivered reg @
            map (\<lambda>e. (taskId e, disconnectedResult reason))
              (filter (\<lambda>e. connectionId e = cid) (pending reg))\<rparr>"
  unfolding failAllForConnection_def
  using resolve_fold [OF assms subset_refl, of "\<lambda>e. connectionId e = cid"
      "\<lambda>e. disconnectedResult reason :: 'd task_result"]
    distinct_ids_filter [OF assms, of "\<lambda>e. connectionId e = cid"]
  by simp

lemma sweepExpired_eq:
  fixes reg :: "'d registry"
  assumes "distinct (map taskId (pending reg))"
  shows "sweepExpired now reg
    = reg\<lparr>pending := filter (\<lambda>e. \<not> deadline e < now) (pending reg),
          delivered := delivered reg @
            map (\<lambda>e. (taskId e, timeoutResult)) (filter (\<lambda>e. deadline e < now) (pending reg))\<rparr>"
  unfolding sweepExpired_def
  using resolve_fold [OF assms subset_refl, of "\<lambda>e. deadline e < now" "\<lambda>e. timeoutResult :: 'd task_result"]
    distinct_ids_filter [OF assms, of "\<lambda>e. deadline e < now"]
  by simp

text \<open>
  Claim C4. When a connection closes while N tasks are pending on it,
  \<^verbatim>\<open>failAllForConnection\<close> hands each of the N callers a result of status Disconnected,
  once each and in registration order, and afterwards the registry holds no entry bound to
  that connection; the entries of other connections stay as they were.
\<close>

theorem failAllForConnection_disconnects_all:
  fixes reg :: "'d registry"
  assumes "distinct (map taskId (pending reg))"
  shows
    "delivered (failAllForConnection cid reason reg)
       = delivered reg @ map (\<lambda>e. (taskId e, disconnectedResult reason))
                          (filter (\<lambda>e. connectionId e = cid) (pending reg)) \<and>
     status (disconnectedResult reason :: 'd task_result) = Disconnected \<and>
     filter (\<lambda>e. connectionId e = cid) (pending (failAllForConnection cid reason reg)) = [] \<and>
     pending (failAllForConnection cid reason reg)
       = filter (\<lambda>e. connectionId e \<noteq> cid) (pending reg)"
  by (simp add: failAllForConnection_eq [OF assms] disconnectedResult_def)

theorem failAllForConnection_disconnects_all_witness:
  "delivered (failAllForConnection ''c1'' ''socket closed''
     \<lparr>pending = [\<lparr>taskId = ''t1'', connectionId = ''c1'', deadline = 100\<rparr>,
                 \<lparr>taskId = ''t2'', connectionId = ''c2'', deadline = 150\<rparr>,
                 \<lparr>taskId = ''t3'', connectionId = ''c1'', deadline = 120\<rparr>],
      delivered = [] :: (string \<times> string task_result) list\<rparr>)
   = [(''t1'', \<lparr>status = Disconnected, data = None, errorMessage = Some ''socket closed''\<rparr>),
      (''t3'', \<lparr>status = Disconnected, data = None, errorMessage = Some ''socket closed''\<rparr>)] \<and>
   pending (failAllForConnection ''c1'' ''socket closed''
     \<lparr>pending = [\<lparr>taskId = ''t1'', connectionId = ''c1'', deadline = 100\<rparr>,
                 \<lparr>taskId = ''t2'', connectionId = ''c2'', deadline = 150\<rparr>,
                 \<lparr>taskId = ''t3'', connectionId = ''c1'', deadline = 120\<rparr>],
      delivered = [] :: (string \<times> string task_result) list\<rparr>)
   = [\<lparr>taskId = ''t2'', connectionId = ''c2'', deadline = 150\<rparr>]"
proof -
  let ?reg = "\<lparr>pending = [\<lparr>taskId = ''t1'', connectionId = ''c1'', deadline = 100\<rparr>,
                 \<lparr>taskId = ''t2'', connectionId = ''c2'', deadline = 150\<rparr>,
                 \<lparr>taskId = ''t3'', connectionId = ''c1'', deadline = 120\<rparr>],
      delivered = [] :: (string \<times> string task_result) list\<rparr>"
  have h: "distinct (map taskId (pending ?reg))" by simp
  from failAllForConnection_disconnects_all [OF h, of "''c1''" "''socket closed''"]
  show ?thesis by (simp add: disconnectedResult_def)
qed

lemma image_absent: "t \<notin> f ` A \<Longrightarrow> x \<in> A \<Longrightarrow> f x \<noteq> t"
  by blast

lemma deliveries_of_absent:
  "t \<notin> taskId ` set es \<Longrightarrow>
   filter (\<lambda>p. fst p = t) (map (\<lambda>x. (taskId x, f x)) (filter P es)) = []"
  by (simp add: filter_empty_conv image_absent)

lemma deliveries_of_entry:
  "distinct (map taskId es) \<Longrightarrow> e \<in> set es \<Longrightarrow>
   filter (\<lambda>p. fst p = taskId e) (map (\<lambda>x. (taskId x, f x)) (filter P es))
     = (if P e then [(taskId e, f e)] else [])"
proof (induction es)
  case Nil
  then show ?case by simp
next
  case (Cons x es)
  show ?case
  proof (cases "x = e")
    case True
    with Cons.prems have "taskId e \<notin> taskId ` set es" by auto
    from deliveries_of_absent [OF this, of f P] True show ?thesis by simp
  next
    case False
    with Cons.prems have "e \<in> set es" and "taskId x \<noteq> taskId e" and "distinct (map taskId es)"
      by auto
    with Cons.IH show ?thesis by simp
  qed
qed

lemma deliveries_of_entry_yes:
  "distinct (map taskId es) \<Longrightarrow> e \<in> set es \<Longrightarrow> P e \<Longrightarrow>
   filter (\<lambda>p. fst p = taskId e) (map (\<lambda>x. (taskId x, f x)) (filter P es)) = [(taskId e, f e)]"
  by (simp add: deliveries_of_entry)

lemma deliveries_of_entry_no:
  "distinct (map taskId es) \<Longrightarrow> e \<in> set es \<Longrightarrow> \<not> P e \<Longrightarrow>
   filter (\<lambda>p. fst p = taskId e) (map (\<lambda>x. (taskId x, f x)) (filter P es)) = []"
  by (simp add: deliveries_of_entry)

lemma same_id_same_entry:
  "distinct (map taskId es) \<Longrightarrow> e \<in> set es \<Longrightarrow> y \<in> set es \<Longrightarrow> taskId y = taskId e \<Longrightarrow> y = e"
  by (meson distinct_map inj_onD)

lemma applyEvent_distinct:
  fixes reg :: "'d registry"
  assumes "distinct (map taskId (pending reg))"
  shows "distinct (map taskId (pending (applyEvent ev reg)))"
proof (cases ev)
  case (TaskRegistered tid cid dl)
  with assms show ?thesis by (auto simp: register_def)
next
  case (ReplyArrives tid result)
  with assms show ?thesis by (auto simp: resolve_def distinct_map_filter)
next
  case (SweepFires now)
  with assms show ?thesis by (simp add: sweepExpired_eq distinct_map_filter)
next
  case (ConnectionCloses cid reason)
  with assms show ?thesis by (simp add: failAllForConnection_eq distinct_map_filter)
qed

lemma applyEvent_pending_entry:
  fixes reg :: "'d registry"
  assumes d: "distinct (map taskId (pending reg))" and e: "e \<in> set (pending reg)"
    and nr: "\<not> registers ev (taskId e)"
  shows "case ends ev e of
           Some result \<Rightarrow>
             taskId e \<notin> taskId ` set (pending (applyEvent ev reg)) \<and>
             deliveredFor (taskId e) (applyEvent ev reg) = deliveredFor (taskId e) reg @ [result]
         | None \<Rightarrow>
             e \<in> set (pending (applyEvent ev reg)) \<and>
             deliveredFor (taskId e) (applyEvent ev reg) = deliveredFor (taskId e) reg"
proof (cases ev)
  case (TaskRegistered tid cid dl)
  with e nr show ?thesis by (auto simp: register_def deliveredFor_def)
next
  case (ReplyArrives tid result)
  with e show ?thesis by (auto simp: resolve_def deliveredFor_def)
next
  case (SweepFires now)
  show ?thesis
  proof (cases "deadline e < now")
    case True
    have "taskId e \<notin> taskId ` set (filter (\<lambda>x. \<not> deadline x < now) (pending reg))"
      using same_id_same_entry [OF d e] True by auto
    with SweepFires True show ?thesis
      using deliveries_of_entry_yes [OF d e, of "\<lambda>x. deadline x < now" "\<lambda>x. timeoutResult :: 'd task_result"]
      by (simp add: sweepExpired_eq [OF d] deliveredFor_def)
  next
    case False
    with SweepFires e show ?thesis
      using deliveries_of_entry_no [OF d e, of "\<lambda>x. deadline x < now" "\<lambda>x. timeoutResult :: 'd task_result"]
      by (simp add: sweepExpired_eq [OF d] deliveredFor_def)
  qed
next
  case (ConnectionCloses cid reason)
  show ?thesis
  proof (cases "cid = connectionId e")
    case True
    have "taskId e \<notin> taskId ` set (filter (\<lambda>x. connectionId x \<noteq> cid) (pending reg))"
      using same_id_same_entry [OF d e] True by auto
    with ConnectionCloses True show ?thesis
      using deliveries_of_entry_yes [OF d e, of "\<lambda>x. connectionId x = cid"
          "\<lambda>x. disconnectedResult reason :: 'd task_result"]
      by (simp add: failAllForConnection_eq [OF d] deliveredFor_def)
  next
    case False
    then have "connectionId e \<noteq> cid" by simp
    with ConnectionCloses e False show ?thesis
      using deliveries_of_entry_no [OF d e, of "\<lambda>x. connectionId x = cid"
          "\<lambda>x. disconnectedResult reason :: 'd task_result"]
      by (simp add: failAllForConnection_eq [OF d] deliveredFor_def)
  qed
qed

lemma applyEvent_absent:
  fixes reg :: "'d registry"
  assumes d: "distinct (map taskId (pending reg))" and t: "t \<notin> taskId ` set (pending reg)"
    and nr: "\<not> registers ev t"
  shows "t \<notin> taskId ` set (pending (applyEvent ev reg)) \<and>
         deliveredFor t (applyEvent ev reg) = deliveredFor t reg"
proof (cases ev)
  case (TaskRegistered tid cid dl)
  with t nr show ?thesis by (auto simp: register_def deliveredFor_def)
next
  case (ReplyArrives tid result)
  with t show ?thesis by (auto simp: resolve_def deliveredFor_def)
next
  case (SweepFires now)
  with t show ?thesis
    using deliveries_of_absent [OF t, of "\<lambda>x. timeoutResult :: 'd task_result" "\<lambda>x. deadline x < now"]
    by (auto simp: sweepExpired_eq [OF d] deliveredFor_def)
next
  case (ConnectionCloses cid reason)
  with t show ?thesis
    using deliveries_of_absent [OF t, of "\<lambda>x. disconnectedResult reason :: 'd task_result"
        "\<lambda>x. connectionId x = cid"]
    by (auto simp: failAllForConnection_eq [OF d] deliveredFor_def)
qed

lemma run_absent:
  fixes reg :: "'d registry"
  assumes "distinct (map taskId (pending reg))" and "t \<notin> taskId ` set (pending reg)"
    and "\<forall>ev \<in> set es. \<not> registers ev t"
  shows "t \<notin> taskId ` set (pending (run es reg)) \<and> deliveredFor t (run es reg) = deliveredFor t reg"
  using assms
proof (induction es arbitrary: reg)
  case Nil
  then show ?case by (simp add: run_def)
next
  case (Cons ev es)
  from Cons.prems have nr: "\<not> registers ev t" by simp
  note step = applyEvent_absent [OF Cons.prems(1) Cons.prems(2) nr]
  from Cons.IH [OF applyEvent_distinct [OF Cons.prems(1)], of ev] step Cons.prems(3)
  show ?case by (simp add: run_def)
qed

lemma run_pending_entry:
  fixes reg :: "'d registry"
  assumes "distinct (map taskId (pending reg))" and "e \<in> set (pending reg)"
    and "\<forall>ev \<in> set es. \<not> registers ev (taskId e)"
  shows "deliveredFor (taskId e) (run es reg)
           = deliveredFor (taskId e) reg @ (case firstOutcome es e of None \<Rightarrow> [] | Some r \<Rightarrow> [r]) \<and>
         (firstOutcome es e = None \<longrightarrow> e \<in> set (pending (run es reg))) \<and>
         (firstOutcome es e \<noteq> None \<longrightarrow> taskId e \<notin> taskId ` set (pending (run es reg)))"
  using assms
proof (induction es arbitrary: reg)
  case Nil
  then show ?case by (simp add: run_def)
next
  case (Cons ev es)
  from Cons.prems have nr: "\<not> registers ev (taskId e)"
    and nrs: "\<forall>ev \<in> set es. \<not> registers ev (taskId e)" by simp_all
  note d1 = applyEvent_distinct [OF Cons.prems(1), of ev]
  note step = applyEvent_pending_entry [OF Cons.prems(1) Cons.prems(2) nr]
  show ?case
  proof (cases "ends ev e")
    case None
    with step have e1: "e \<in> set (pending (applyEvent ev reg))"
      and del: "deliveredFor (taskId e) (applyEvent ev reg) = deliveredFor (taskId e) reg"
      by simp_all
    from Cons.IH [OF d1 e1 nrs] del None show ?thesis by (simp add: run_def)
  next
    case (Some result)
    with step have t1: "taskId e \<notin> taskId ` set (pending (applyEvent ev reg))"
      and del: "deliveredFor (taskId e) (applyEvent ev reg) = deliveredFor (taskId e) reg @ [result]"
      by simp_all
    from run_absent [OF d1 t1 nrs] del Some show ?thesis by (simp add: run_def)
  qed
qed

text \<open>
  Replies need not come in the order of dispatch: for two entries pending at once, also on
  one connection, each reply completes its own entry whichever of the two arrives first,
  and the registry is left with the same pending entries either way.
\<close>

lemma replies_in_either_order:
  fixes reg :: "'d registry"
  assumes "e1 \<in> set (pending reg)" and "e2 \<in> set (pending reg)" and "taskId e1 \<noteq> taskId e2"
  shows
    "delivered (run [ReplyArrives (taskId e1) r1, ReplyArrives (taskId e2) r2] reg)
       = delivered reg @ [(taskId e1, r1), (taskId e2, r2)] \<and>
     delivered (run [ReplyArrives (taskId e2) r2, ReplyArrives (taskId e1) r1] reg)
       = delivered reg @ [(taskId e2, r2), (taskId e1, r1)] \<and>
     pending (run [ReplyArrives (taskId e1) r1, ReplyArrives (taskId e2) r2] reg)
       = pending (run [ReplyArrives (taskId e2) r2, ReplyArrives (taskId e1) r1] reg)"
proof -
  from assms have "taskId e2 \<in> taskId ` set (filter (\<lambda>e. taskId e \<noteq> taskId e1) (pending reg))"
    and "taskId e1 \<in> taskId ` set (filter (\<lambda>e. taskId e \<noteq> taskId e2) (pending reg))"
    by force+
  with assms show ?thesis
    by (auto simp: run_def resolve_def intro!: filter_cong)
qed

lemma firstOutcome_None_iff:
  "firstOutcome es e = None \<longleftrightarrow> (\<forall>ev \<in> set es. ends ev e = None)"
  by (induction es) (auto split: option.splits)

text \<open>
  Claim C2. Take an entry pending in the registry and any sequence of events that follow
  its dispatch (replies, for this or any other id and in any number, timeout sweeps,
  connection losses, registrations of other ids). The caller of the task is handed exactly
  the result of the first event that ends the entry, and nothing if no event does: one
  terminal resolution if any reply, sweep or connection loss of the sequence ends the
  entry, and every later one adds nothing for this task. Once an event has ended
  the entry, \<^verbatim>\<open>resolve\<close> for its id returns false and changes nothing. In particular the
  first \<^verbatim>\<open>resolve\<close> on a pending entry returns true, and a second one, as for a reply
  delivered twice, returns false and is dropped.
\<close>

theorem single_terminal_resolution:
  fixes reg :: "'d registry"
  assumes "distinct (map taskId (pending reg))" and "e \<in> set (pending reg)"
    and "\<forall>ev \<in> set es. \<not> registers ev (taskId e)"
  shows
    "deliveredFor (taskId e) (run es reg)
       = deliveredFor (taskId e) reg @ (case firstOutcome es e of None \<Rightarrow> [] | Some r \<Rightarrow> [r]) \<and>
     length (deliveredFor (taskId e) (run es reg))
       = length (deliveredFor (taskId e) reg) + (if \<exists>ev \<in> set es. ends ev e \<noteq> None then 1 else 0) \<and>
     (firstOutcome es e = None \<longrightarrow> e \<in> set (pending (run es reg))) \<and>
     (firstOutcome es e \<noteq> None \<longrightarrow>
        resolve (taskId e) result' (run es reg) = (False, run es reg)) \<and>
     fst (resolve (taskId e) result reg) \<and>
     resolve (taskId e) result' (snd (resolve (taskId e) result reg))
       = (False, snd (resolve (taskId e) result reg))"
proof -
  note main = run_pending_entry [OF assms]
  have "resolve (taskId e) result' (run es reg) = (False, run es reg)"
    if "firstOutcome es e \<noteq> None"
    using main that by (simp add: resolve_def)
  moreover have "fst (resolve (taskId e) result reg)"
    using assms(2) by (simp add: resolve_def)
  moreover have "resolve (taskId e) result' (snd (resolve (taskId e) result reg))
       = (False, snd (resolve (taskId e) result reg))"
    using assms(2) by (auto simp: resolve_def)
  moreover have "length (deliveredFor (taskId e) (run es reg))
       = length (deliveredFor (taskId e) reg) + (if \<exists>ev \<in> set es. ends ev e \<noteq> None then 1 else 0)"
    using main firstOutcome_None_iff [of es e] by (auto split: option.splits)
  ultimately show ?thesis using main by blast
qed

theorem single_terminal_resolution_witness:
  "deliveredFor ''t1''
     (run [SweepFires 50, ReplyArrives ''t1'' \<lparr>status = Ok, data = Some ''x'', errorMessage = None\<rparr>,
           SweepFires 200, ConnectionCloses ''c1'' ''socket closed'',
           ReplyArrives ''t1'' \<lparr>status = Ok, data = Some ''y'', errorMessage = None\<rparr>]
        \<lparr>pending = [\<lparr>taskId = ''t1'', connectionId = ''c1'', deadline = 100\<rparr>,
                    \<lparr>taskId = ''t2'', connectionId = ''c1'', deadline = 150\<rparr>],
         delivered = []\<rparr>)
     = [\<lparr>status = Ok, data = Some ''x'', errorMessage = None\<rparr>]"
proof -
  let ?e = "\<lparr>taskId = ''t1'', connectionId = ''c1'', deadline = 100\<rparr>"
  let ?reg = "\<lparr>pending = [?e, \<lparr>taskId = ''t2'', connectionId = ''c1'', deadline = 150\<rparr>],
               delivered = [] :: (string \<times> string task_result) list\<rparr>"
  let ?es = "[SweepFires 50, ReplyArrives ''t1'' \<lparr>status = Ok, data = Some ''x'', errorMessage = None\<rparr>,
           SweepFires 200, ConnectionCloses ''c1'' ''socket closed'',
           ReplyArrives ''t1'' \<lparr>status = Ok, data = Some ''y'', errorMessage = None\<rparr>]"
  have h1: "distinct (map taskId (pending ?reg))" by simp
  have h2: "?e \<in> set (pending ?reg)" by simp
  have h3: "\<forall>ev \<in> set ?es. \<not> registers ev (taskId ?e)" by simp
  from single_terminal_resolution [OF h1 h2 h3]
  have "deliveredFor (taskId ?e) (run ?es ?reg)
       = deliveredFor (taskId ?e) ?reg @ (case firstOutcome ?es ?e of None \<Rightarrow> [] | Some r \<Rightarrow> [r])"
    by blast
  then show ?thesis by (simp add: deliveredFor_def)
qed

end
